theory Spec2Isabelle
  imports Main
begin

section \<open>Clarity values, checked arithmetic and the transaction model\<close>

text \<open>
  The three contracts of the trust core (EscrowService, DisputeResolution and
  CoreMarketPlace) are written in Clarity. A principal is an opaque identity compared
  with \<open>is-eq\<close>; it is modelled as a string (its address).
\<close>

type_synonym principal = string

text \<open>
  The values a call can return. A response is \<open>(ok v)\<close> or \<open>(err v)\<close>; the payload
  of either is again a value, so a response can sit inside a response.
\<close>

datatype cval =
    CUInt nat
  | CBool bool
  | CAscii string
  | CPrincipal principal
  | COk cval
  | CErr cval
  | CTuple "(string \<times> cval) list"

text \<open>
  Clarity's \<open>uint\<close> is an unsigned 128-bit integer. \<open>+\<close> and \<open>-\<close> do not wrap:
  a result out of range is a runtime error that aborts the transaction.
\<close>

datatype runtime_error = ArithmeticOverflow | ArithmeticUnderflow

datatype outcome = Returned cval | Aborted runtime_error

definition uint_max :: nat where
  "uint_max = 2 ^ 128 - 1"

definition uint_add :: "nat \<Rightarrow> nat \<Rightarrow> nat option" where
  "uint_add a b = (if a + b \<le> uint_max then Some (a + b) else None)"

definition uint_sub :: "nat \<Rightarrow> nat \<Rightarrow> nat option" where
  "uint_sub a b = (if b \<le> a then Some (a - b) else None)"

text \<open>
  What is fixed when a contract is deployed (\<open>CONTRACT_OWNER\<close> is the deployer,
  \<open>(as-contract tx-sender)\<close> is the contract's own principal), and what every call
  brings with it (\<open>tx-sender\<close> and \<open>block-height\<close>).
\<close>

record deployment =
  contract_owner :: principal
  contract_principal :: principal

record tx =
  tx_sender :: principal
  block_height :: nat

text \<open>
  The STX ledger, and the builtin \<open>stx-transfer?\<close> as the contracts use it (the
  sender is always the current \<open>tx-sender\<close>). It fails with \<open>u3\<close> for a zero amount,
  \<open>u2\<close> when sender and recipient are the same principal and \<open>u1\<close> when the sender
  holds less than the amount; otherwise it moves the amount. Balances are bounded by
  the STX supply, far below the \<open>uint\<close> range, so the ledger's own sums are plain
  naturals.
\<close>

type_synonym ledger = "principal \<Rightarrow> nat"

definition stx_transfer :: "nat \<Rightarrow> principal \<Rightarrow> principal \<Rightarrow> ledger \<Rightarrow> nat + ledger" where
  "stx_transfer amt sender recipient bal =
     (if amt = 0 then Inl 3
      else if sender = recipient then Inl 2
      else if bal sender < amt then Inl 1
      else Inr (bal(sender := bal sender - amt, recipient := bal recipient + amt)))"

text \<open>
  A public function is a transaction: when it returns \<open>(err \<dots>)\<close>, or aborts with a
  runtime error, the VM discards every change its body made.
\<close>

fun is_ok :: "outcome \<Rightarrow> bool" where
  "is_ok (Returned (COk v)) = True"
| "is_ok r = False"

definition call_public :: "('s \<Rightarrow> outcome \<times> 's) \<Rightarrow> 's \<Rightarrow> outcome \<times> 's" where
  "call_public body s =
     (let (r, s') = body s in if is_ok r then (r, s') else (r, s))"

section \<open>EscrowService\<close>

definition ERR_NOT_AUTHORIZED :: cval where "ERR_NOT_AUTHORIZED = CErr (CUInt 100)"
definition ERR_ESCROW_NOT_FOUND :: cval where "ERR_ESCROW_NOT_FOUND = CErr (CUInt 101)"
definition ERR_ALREADY_RELEASED :: cval where "ERR_ALREADY_RELEASED = CErr (CUInt 102)"
definition ERR_TRANSFER_FAILED :: cval where "ERR_TRANSFER_FAILED = CErr (CUInt 103)"
definition ERR_INVALID_ESCROW_ID :: cval where "ERR_INVALID_ESCROW_ID = CErr (CUInt 104)"
definition ERR_INVALID_AMOUNT :: cval where "ERR_INVALID_AMOUNT = CErr (CUInt 105)"
definition ERR_INVALID_SELLER :: cval where "ERR_INVALID_SELLER = CErr (CUInt 106)"
definition ERR_ESCROW_EXPIRED :: cval where "ERR_ESCROW_EXPIRED = CErr (CUInt 107)"
definition ESCROW_DURATION :: nat where "ESCROW_DURATION = 1008"

record escrow =
  buyer :: principal
  seller :: principal
  amount :: nat
  state :: string
  created_at :: nat
  expires_at :: nat

record chain =
  stx :: ledger

record escrow_state = chain +
  Escrows :: "nat \<rightharpoonup> escrow"
  last_escrow_id :: nat

definition is_valid_seller :: "deployment \<Rightarrow> tx \<Rightarrow> principal \<Rightarrow> bool" where
  "is_valid_seller dep ctx s \<longleftrightarrow> s \<noteq> tx_sender ctx \<and> s \<noteq> contract_principal dep"

definition is_valid_escrow_id :: "escrow_state \<Rightarrow> nat \<Rightarrow> bool" where
  "is_valid_escrow_id s escrow_id \<longleftrightarrow> escrow_id \<le> last_escrow_id s"

definition create_escrow ::
  "deployment \<Rightarrow> tx \<Rightarrow> principal \<Rightarrow> nat \<Rightarrow> escrow_state \<Rightarrow> outcome \<times> escrow_state" where
  "create_escrow dep ctx slr amt s =
     (case uint_add (last_escrow_id s) 1 of
        None \<Rightarrow> (Aborted ArithmeticOverflow, s)
      | Some escrow_id \<Rightarrow>
     (case uint_add (block_height ctx) ESCROW_DURATION of
        None \<Rightarrow> (Aborted ArithmeticOverflow, s)
      | Some expires \<Rightarrow>
          if \<not> amt > 0 then (Returned (CErr ERR_INVALID_AMOUNT), s)
          else if \<not> is_valid_seller dep ctx slr then (Returned (CErr ERR_INVALID_SELLER), s)
          else (case stx_transfer amt (tx_sender ctx) (contract_principal dep) (stx s) of
                  Inr bal \<Rightarrow>
                    (Returned (COk (CUInt escrow_id)),
                     s\<lparr>stx := bal,
                       Escrows := (Escrows s)(escrow_id \<mapsto>
                         \<lparr>buyer = tx_sender ctx, seller = slr, amount = amt,
                          state = ''locked'', created_at = block_height ctx,
                          expires_at = expires\<rparr>),
                       last_escrow_id := escrow_id\<rparr>)
                | Inl e \<Rightarrow> (Returned (CErr ERR_TRANSFER_FAILED), s))))"

definition release_funds ::
  "deployment \<Rightarrow> tx \<Rightarrow> nat \<Rightarrow> escrow_state \<Rightarrow> outcome \<times> escrow_state" where
  "release_funds dep ctx escrow_id s =
     (if \<not> is_valid_escrow_id s escrow_id then (Returned (CErr ERR_INVALID_ESCROW_ID), s)
      else (case Escrows s escrow_id of
        None \<Rightarrow> (Returned (CErr ERR_ESCROW_NOT_FOUND), s)
      | Some e \<Rightarrow>
          if \<not> (tx_sender ctx = contract_owner dep \<or> tx_sender ctx = buyer e)
            then (Returned (CErr ERR_NOT_AUTHORIZED), s)
          else if \<not> state e = ''locked'' then (Returned (CErr ERR_ALREADY_RELEASED), s)
          else if \<not> block_height ctx \<le> expires_at e then (Returned (CErr ERR_ESCROW_EXPIRED), s)
          else (case stx_transfer (amount e) (contract_principal dep) (seller e) (stx s) of
                  Inr bal \<Rightarrow>
                    (Returned (COk (CBool True)),
                     s\<lparr>stx := bal,
                       Escrows := (Escrows s)(escrow_id \<mapsto> e\<lparr>state := ''released''\<rparr>)\<rparr>)
                | Inl err \<Rightarrow> (Returned (CErr ERR_TRANSFER_FAILED), s))))"

definition refund_buyer ::
  "deployment \<Rightarrow> tx \<Rightarrow> nat \<Rightarrow> escrow_state \<Rightarrow> outcome \<times> escrow_state" where
  "refund_buyer dep ctx escrow_id s =
     (if \<not> is_valid_escrow_id s escrow_id then (Returned (CErr ERR_INVALID_ESCROW_ID), s)
      else (case Escrows s escrow_id of
        None \<Rightarrow> (Returned (CErr ERR_ESCROW_NOT_FOUND), s)
      | Some e \<Rightarrow>
          if \<not> tx_sender ctx = contract_owner dep then (Returned (CErr ERR_NOT_AUTHORIZED), s)
          else if \<not> state e = ''locked'' then (Returned (CErr ERR_ALREADY_RELEASED), s)
          else (case stx_transfer (amount e) (contract_principal dep) (buyer e) (stx s) of
                  Inr bal \<Rightarrow>
                    (Returned (COk (CBool True)),
                     s\<lparr>stx := bal,
                       Escrows := (Escrows s)(escrow_id \<mapsto> e\<lparr>state := ''refunded''\<rparr>)\<rparr>)
                | Inl err \<Rightarrow> (Returned (CErr ERR_TRANSFER_FAILED), s))))"

definition escrow_tuple :: "escrow \<Rightarrow> cval" where
  "escrow_tuple e =
     CTuple [(''buyer'', CPrincipal (buyer e)), (''seller'', CPrincipal (seller e)),
             (''amount'', CUInt (amount e)), (''state'', CAscii (state e)),
             (''created-at'', CUInt (created_at e)), (''expires-at'', CUInt (expires_at e))]"

definition get_escrow :: "nat \<Rightarrow> escrow_state \<Rightarrow> cval" where
  "get_escrow escrow_id s =
     (if \<not> is_valid_escrow_id s escrow_id then CErr ERR_INVALID_ESCROW_ID
      else (case Escrows s escrow_id of
              Some e \<Rightarrow> COk (escrow_tuple e)
            | None \<Rightarrow> CErr ERR_ESCROW_NOT_FOUND))"

definition get_last_escrow_id :: "escrow_state \<Rightarrow> cval" where
  "get_last_escrow_id s = COk (CUInt (last_escrow_id s))"

text \<open>
  The public entry points as typed calls, each run as a transaction, and a sequence of
  calls by any callers at any block heights, starting from the freshly deployed
  contract: no escrow, counter at zero.
\<close>

datatype escrow_op = CreateEscrow principal nat | ReleaseFunds nat | RefundBuyer nat

fun escrow_body :: "deployment \<Rightarrow> tx \<Rightarrow> escrow_op \<Rightarrow> escrow_state \<Rightarrow> outcome \<times> escrow_state" where
  "escrow_body dep ctx (CreateEscrow slr amt) = create_escrow dep ctx slr amt"
| "escrow_body dep ctx (ReleaseFunds escrow_id) = release_funds dep ctx escrow_id"
| "escrow_body dep ctx (RefundBuyer escrow_id) = refund_buyer dep ctx escrow_id"

definition escrow_call :: "deployment \<Rightarrow> tx \<Rightarrow> escrow_op \<Rightarrow> escrow_state \<Rightarrow> outcome \<times> escrow_state" where
  "escrow_call dep ctx op = call_public (escrow_body dep ctx op)"

fun escrow_run :: "deployment \<Rightarrow> (tx \<times> escrow_op) list \<Rightarrow> escrow_state \<Rightarrow> escrow_state" where
  "escrow_run dep [] s = s"
| "escrow_run dep (c # calls) s = escrow_run dep calls (snd (escrow_call dep (fst c) (snd c) s))"

definition escrow_deployed :: "ledger \<Rightarrow> escrow_state" where
  "escrow_deployed bal = \<lparr>stx = bal, Escrows = Map.empty, last_escrow_id = 0\<rparr>"




text \<open>The amount in custody according to the records: the sum over the locked escrows.\<close>

definition locked_ids :: "escrow_state \<Rightarrow> nat set" where
  "locked_ids s = {i. \<exists>e. Escrows s i = Some e \<and> state e = ''locked''}"

definition locked_total :: "escrow_state \<Rightarrow> nat" where
  "locked_total s = (\<Sum>i \<in> locked_ids s. amount (the (Escrows s i)))"

section \<open>DisputeResolution\<close>

text \<open>
  Each contract has its own constants. \<open>ERR_NOT_AUTHORIZED\<close> is \<open>(err u100)\<close> in all
  three and is shared; where a name stands for different things in two contracts the
  later one carries the contract's name as a suffix.
\<close>

definition ERR_DISPUTE_NOT_FOUND :: cval where "ERR_DISPUTE_NOT_FOUND = CErr (CUInt 101)"
definition ERR_INVALID_STATE :: cval where "ERR_INVALID_STATE = CErr (CUInt 102)"
definition ERR_NOT_ARBITRATOR :: cval where "ERR_NOT_ARBITRATOR = CErr (CUInt 103)"
definition ERR_ALREADY_VOTED :: cval where "ERR_ALREADY_VOTED = CErr (CUInt 104)"
definition ERR_VOTING_CLOSED :: cval where "ERR_VOTING_CLOSED = CErr (CUInt 105)"
definition ERR_INSUFFICIENT_VOTES :: cval where "ERR_INSUFFICIENT_VOTES = CErr (CUInt 106)"
definition ERR_INVALID_VOTE :: cval where "ERR_INVALID_VOTE = CErr (CUInt 107)"
definition ERR_NOT_INVOLVED_PARTY :: cval where "ERR_NOT_INVOLVED_PARTY = CErr (CUInt 108)"
definition ERR_INVALID_ESCROW_ID_dispute :: cval where "ERR_INVALID_ESCROW_ID_dispute = CErr (CUInt 109)"
definition ERR_INVALID_REASON :: cval where "ERR_INVALID_REASON = CErr (CUInt 110)"
definition ERR_INVALID_DISPUTE_ID :: cval where "ERR_INVALID_DISPUTE_ID = CErr (CUInt 111)"
definition ERR_INVALID_REWARD :: cval where "ERR_INVALID_REWARD = CErr (CUInt 112)"
definition ERR_INVALID_PRINCIPAL :: cval where "ERR_INVALID_PRINCIPAL = CErr (CUInt 113)"
definition VOTING_PERIOD :: nat where "VOTING_PERIOD = 144"
definition MIN_VOTES_REQUIRED :: nat where "MIN_VOTES_REQUIRED = 3"

record dispute =
  escrow_id :: nat
  initiator :: principal
  counterparty :: principal
  reason :: string
  status :: string
  dispute_created_at :: nat
  votes_for :: nat
  votes_against :: nat
  resolution :: "string option"

record dispute_state =
  Disputes :: "nat \<rightharpoonup> dispute"
  Arbitrators :: "principal \<rightharpoonup> bool"
  ArbitratorVotes :: "nat \<times> principal \<rightharpoonup> bool"
  last_dispute_id :: nat
  arbitrator_reward :: nat

definition is_arbitrator :: "dispute_state \<Rightarrow> principal \<Rightarrow> bool" where
  "is_arbitrator s user = (case Arbitrators s user of None \<Rightarrow> False | Some b \<Rightarrow> b)"

definition has_voted :: "dispute_state \<Rightarrow> nat \<Rightarrow> principal \<Rightarrow> bool" where
  "has_voted s dispute_id arbitrator \<longleftrightarrow> ArbitratorVotes s (dispute_id, arbitrator) \<noteq> None"

definition update_vote_count :: "nat \<Rightarrow> bool \<Rightarrow> dispute_state \<Rightarrow> outcome \<times> dispute_state" where
  "update_vote_count dispute_id vote s =
     (case Disputes s dispute_id of
        Some d \<Rightarrow>
          (case (if vote then uint_add (votes_for d) 1 else Some (votes_for d)) of
             None \<Rightarrow> (Aborted ArithmeticOverflow, s)
           | Some new_votes_for \<Rightarrow>
          (case (if vote then Some (votes_against d) else uint_add (votes_against d) 1) of
             None \<Rightarrow> (Aborted ArithmeticOverflow, s)
           | Some new_votes_against \<Rightarrow>
               (Returned (COk (CBool True)),
                s\<lparr>Disputes := (Disputes s)(dispute_id \<mapsto>
                     d\<lparr>votes_for := new_votes_for, votes_against := new_votes_against\<rparr>)\<rparr>)))
      | None \<Rightarrow> (Returned (CErr ERR_DISPUTE_NOT_FOUND), s))"

definition is_valid_escrow_id_dispute :: "nat \<Rightarrow> bool" where
  "is_valid_escrow_id_dispute eid \<longleftrightarrow> eid > 0"

definition is_valid_reason :: "string \<Rightarrow> bool" where
  "is_valid_reason r \<longleftrightarrow> length r > 0 \<and> length r \<le> 256"

definition is_valid_dispute_id :: "dispute_state \<Rightarrow> nat \<Rightarrow> bool" where
  "is_valid_dispute_id s dispute_id \<longleftrightarrow> dispute_id \<le> last_dispute_id s"

definition is_valid_principal :: "deployment \<Rightarrow> principal \<Rightarrow> bool" where
  "is_valid_principal dep p \<longleftrightarrow> p \<noteq> contract_owner dep \<and> p \<noteq> contract_principal dep"

definition raise_dispute ::
  "tx \<Rightarrow> nat \<Rightarrow> principal \<Rightarrow> string \<Rightarrow> dispute_state \<Rightarrow> outcome \<times> dispute_state" where
  "raise_dispute ctx eid cp rsn s =
     (case uint_add (last_dispute_id s) 1 of
        None \<Rightarrow> (Aborted ArithmeticOverflow, s)
      | Some dispute_id \<Rightarrow>
          if \<not> is_valid_escrow_id_dispute eid then (Returned (CErr ERR_INVALID_ESCROW_ID_dispute), s)
          else if \<not> is_valid_reason rsn then (Returned (CErr ERR_INVALID_REASON), s)
          else if \<not> tx_sender ctx \<noteq> cp then (Returned (CErr ERR_NOT_INVOLVED_PARTY), s)
          else (Returned (COk (CUInt dispute_id)),
                s\<lparr>Disputes := (Disputes s)(dispute_id \<mapsto>
                     \<lparr>escrow_id = eid, initiator = tx_sender ctx, counterparty = cp,
                      reason = rsn, status = ''open'', dispute_created_at = block_height ctx,
                      votes_for = 0, votes_against = 0, resolution = None\<rparr>),
                  last_dispute_id := dispute_id\<rparr>))"

definition vote_on_dispute ::
  "tx \<Rightarrow> nat \<Rightarrow> bool \<Rightarrow> dispute_state \<Rightarrow> outcome \<times> dispute_state" where
  "vote_on_dispute ctx dispute_id vote s =
     (case Disputes s dispute_id of
        None \<Rightarrow> (Returned (CErr ERR_DISPUTE_NOT_FOUND), s)
      | Some d \<Rightarrow>
          if \<not> is_valid_dispute_id s dispute_id then (Returned (CErr ERR_INVALID_DISPUTE_ID), s)
          else if \<not> is_arbitrator s (tx_sender ctx) then (Returned (CErr ERR_NOT_ARBITRATOR), s)
          else if \<not> status d = ''open'' then (Returned (CErr ERR_VOTING_CLOSED), s)
          else (case uint_sub (block_height ctx) (dispute_created_at d) of
             None \<Rightarrow> (Aborted ArithmeticUnderflow, s)
           | Some elapsed \<Rightarrow>
               if \<not> elapsed \<le> VOTING_PERIOD then (Returned (CErr ERR_VOTING_CLOSED), s)
               else if \<not> \<not> has_voted s dispute_id (tx_sender ctx)
                 then (Returned (CErr ERR_ALREADY_VOTED), s)
               else (let (r, s1) = update_vote_count dispute_id vote s in
                     if \<not> is_ok r then (r, s1)
                     else (Returned (COk (CBool True)),
                           s1\<lparr>ArbitratorVotes :=
                                (ArbitratorVotes s1)((dispute_id, tx_sender ctx) \<mapsto> vote)\<rparr>))))"

definition resolve_dispute :: "tx \<Rightarrow> nat \<Rightarrow> dispute_state \<Rightarrow> outcome \<times> dispute_state" where
  "resolve_dispute ctx dispute_id s =
     (case Disputes s dispute_id of
        None \<Rightarrow> (Returned (CErr ERR_DISPUTE_NOT_FOUND), s)
      | Some d \<Rightarrow>
          if \<not> is_valid_dispute_id s dispute_id then (Returned (CErr ERR_INVALID_DISPUTE_ID), s)
          else if \<not> status d = ''open'' then (Returned (CErr ERR_INVALID_STATE), s)
          else (case uint_add (votes_for d) (votes_against d) of
             None \<Rightarrow> (Aborted ArithmeticOverflow, s)
           | Some votes \<Rightarrow>
               if \<not> votes \<ge> MIN_VOTES_REQUIRED then (Returned (CErr ERR_INSUFFICIENT_VOTES), s)
               else (case uint_sub (block_height ctx) (dispute_created_at d) of
                  None \<Rightarrow> (Aborted ArithmeticUnderflow, s)
                | Some elapsed \<Rightarrow>
                    if \<not> elapsed \<le> VOTING_PERIOD then (Returned (CErr ERR_VOTING_CLOSED), s)
                    else (let res = (if votes_for d > votes_against d
                                     then ''for_initiator'' else ''for_counterparty'') in
                          (Returned (COk (CAscii res)),
                           s\<lparr>Disputes := (Disputes s)(dispute_id \<mapsto>
                                d\<lparr>status := ''resolved'', resolution := Some res\<rparr>)\<rparr>)))))"

definition add_arbitrator ::
  "deployment \<Rightarrow> tx \<Rightarrow> principal \<Rightarrow> dispute_state \<Rightarrow> outcome \<times> dispute_state" where
  "add_arbitrator dep ctx arbitrator s =
     (if \<not> tx_sender ctx = contract_owner dep then (Returned (CErr ERR_NOT_AUTHORIZED), s)
      else if \<not> is_valid_principal dep arbitrator then (Returned (CErr ERR_INVALID_PRINCIPAL), s)
      else (Returned (COk (CBool True)), s\<lparr>Arbitrators := (Arbitrators s)(arbitrator \<mapsto> True)\<rparr>))"

definition remove_arbitrator ::
  "deployment \<Rightarrow> tx \<Rightarrow> principal \<Rightarrow> dispute_state \<Rightarrow> outcome \<times> dispute_state" where
  "remove_arbitrator dep ctx arbitrator s =
     (if \<not> tx_sender ctx = contract_owner dep then (Returned (CErr ERR_NOT_AUTHORIZED), s)
      else if \<not> is_valid_principal dep arbitrator then (Returned (CErr ERR_INVALID_PRINCIPAL), s)
      else (Returned (COk (CBool True)), s\<lparr>Arbitrators := (Arbitrators s)(arbitrator := None)\<rparr>))"

definition set_arbitrator_reward ::
  "deployment \<Rightarrow> tx \<Rightarrow> nat \<Rightarrow> dispute_state \<Rightarrow> outcome \<times> dispute_state" where
  "set_arbitrator_reward dep ctx new_reward s =
     (if \<not> tx_sender ctx = contract_owner dep then (Returned (CErr ERR_NOT_AUTHORIZED), s)
      else if \<not> new_reward > 0 then (Returned (CErr ERR_INVALID_REWARD), s)
      else (Returned (COk (CBool True)), s\<lparr>arbitrator_reward := new_reward\<rparr>))"

datatype dispute_op =
    RaiseDispute nat principal string
  | VoteOnDispute nat bool
  | ResolveDispute nat
  | AddArbitrator principal
  | RemoveArbitrator principal
  | SetArbitratorReward nat

fun dispute_body :: "deployment \<Rightarrow> tx \<Rightarrow> dispute_op \<Rightarrow> dispute_state \<Rightarrow> outcome \<times> dispute_state" where
  "dispute_body dep ctx (RaiseDispute eid cp rsn) = raise_dispute ctx eid cp rsn"
| "dispute_body dep ctx (VoteOnDispute dispute_id vote) = vote_on_dispute ctx dispute_id vote"
| "dispute_body dep ctx (ResolveDispute dispute_id) = resolve_dispute ctx dispute_id"
| "dispute_body dep ctx (AddArbitrator a) = add_arbitrator dep ctx a"
| "dispute_body dep ctx (RemoveArbitrator a) = remove_arbitrator dep ctx a"
| "dispute_body dep ctx (SetArbitratorReward n) = set_arbitrator_reward dep ctx n"

definition dispute_call :: "deployment \<Rightarrow> tx \<Rightarrow> dispute_op \<Rightarrow> dispute_state \<Rightarrow> outcome \<times> dispute_state" where
  "dispute_call dep ctx op = call_public (dispute_body dep ctx op)"

fun dispute_run :: "deployment \<Rightarrow> (tx \<times> dispute_op) list \<Rightarrow> dispute_state \<Rightarrow> dispute_state" where
  "dispute_run dep [] s = s"
| "dispute_run dep (c # calls) s = dispute_run dep calls (snd (dispute_call dep (fst c) (snd c) s))"

definition dispute_deployed :: dispute_state where
  "dispute_deployed =
     \<lparr>Disputes = Map.empty, Arbitrators = Map.empty, ArbitratorVotes = Map.empty,
      last_dispute_id = 0, arbitrator_reward = 100\<rparr>"

section \<open>CoreMarketPlace\<close>

definition ERR_LISTING_NOT_FOUND :: cval where "ERR_LISTING_NOT_FOUND = CErr (CUInt 101)"
definition ERR_INVALID_PRICE :: cval where "ERR_INVALID_PRICE = CErr (CUInt 102)"
definition ERR_INVALID_SELLER_market :: cval where "ERR_INVALID_SELLER_market = CErr (CUInt 103)"
definition ERR_INSUFFICIENT_BALANCE :: cval where "ERR_INSUFFICIENT_BALANCE = CErr (CUInt 104)"
definition ERR_LISTING_EXPIRED :: cval where "ERR_LISTING_EXPIRED = CErr (CUInt 105)"
definition ERR_INVALID_STATUS :: cval where "ERR_INVALID_STATUS = CErr (CUInt 106)"
definition ERR_NOT_SELLER :: cval where "ERR_NOT_SELLER = CErr (CUInt 107)"
definition ERR_ALREADY_PURCHASED :: cval where "ERR_ALREADY_PURCHASED = CErr (CUInt 108)"
definition ERR_INVALID_INPUT :: cval where "ERR_INVALID_INPUT = CErr (CUInt 109)"
definition ERR_INVALID_DURATION :: cval where "ERR_INVALID_DURATION = CErr (CUInt 110)"
definition ERR_INVALID_LISTING_ID :: cval where "ERR_INVALID_LISTING_ID = CErr (CUInt 111)"
definition MAX_LISTING_DURATION :: nat where "MAX_LISTING_DURATION = 52560"

record listing =
  listing_seller :: principal
  name :: string
  description :: string
  price :: nat
  listing_status :: string
  listing_created_at :: nat
  listing_expires_at :: nat

record market_state = chain +
  Listings :: "nat \<rightharpoonup> listing"
  last_listing_id :: nat

definition is_valid_price :: "nat \<Rightarrow> bool" where
  "is_valid_price p \<longleftrightarrow> p > 0"

definition is_valid_string :: "string \<Rightarrow> nat \<Rightarrow> bool" where
  "is_valid_string str max_len \<longleftrightarrow> length str \<ge> 1 \<and> length str \<le> max_len"

definition is_valid_duration :: "nat \<Rightarrow> bool" where
  "is_valid_duration duration \<longleftrightarrow> duration > 0 \<and> duration \<le> MAX_LISTING_DURATION"

definition is_valid_listing_id :: "market_state \<Rightarrow> nat \<Rightarrow> bool" where
  "is_valid_listing_id s listing_id \<longleftrightarrow> listing_id \<le> last_listing_id s"

text \<open>\<open>increment-listing-id\<close> writes the counter and reads it back.\<close>

definition increment_listing_id :: "market_state \<Rightarrow> runtime_error + nat \<times> market_state" where
  "increment_listing_id s =
     (case uint_add (last_listing_id s) 1 of
        None \<Rightarrow> Inl ArithmeticOverflow
      | Some n \<Rightarrow> (let s1 = s\<lparr>last_listing_id := n\<rparr> in Inr (last_listing_id s1, s1)))"

text \<open>
  \<open>create-listing\<close> binds \<open>listing-id\<close> to \<open>(increment-listing-id)\<close> before it
  validates anything: the body returns its errors with the counter already advanced, and
  it is the transaction (\<open>call_public\<close>) that takes the advance back.
\<close>

definition create_listing ::
  "tx \<Rightarrow> string \<Rightarrow> string \<Rightarrow> nat \<Rightarrow> nat \<Rightarrow> market_state \<Rightarrow> outcome \<times> market_state" where
  "create_listing ctx nm descr prc duration s =
     (case increment_listing_id s of
        Inl e \<Rightarrow> (Aborted e, s)
      | Inr (listing_id, s1) \<Rightarrow>
     (case uint_add (block_height ctx) duration of
        None \<Rightarrow> (Aborted ArithmeticOverflow, s1)
      | Some expires \<Rightarrow>
          if \<not> is_valid_price prc then (Returned (CErr ERR_INVALID_PRICE), s1)
          else if \<not> is_valid_string nm 64 then (Returned (CErr ERR_INVALID_INPUT), s1)
          else if \<not> is_valid_string descr 256 then (Returned (CErr ERR_INVALID_INPUT), s1)
          else if \<not> is_valid_duration duration then (Returned (CErr ERR_INVALID_DURATION), s1)
          else (Returned (COk (CUInt listing_id)),
                s1\<lparr>Listings := (Listings s1)(listing_id \<mapsto>
                      \<lparr>listing_seller = tx_sender ctx, name = nm, description = descr,
                       price = prc, listing_status = ''active'',
                       listing_created_at = block_height ctx,
                       listing_expires_at = expires\<rparr>)\<rparr>)))"

definition update_listing ::
  "tx \<Rightarrow> nat \<Rightarrow> nat \<Rightarrow> string \<Rightarrow> market_state \<Rightarrow> outcome \<times> market_state" where
  "update_listing ctx listing_id new_price new_description s =
     (if \<not> is_valid_listing_id s listing_id then (Returned (CErr ERR_INVALID_LISTING_ID), s)
      else (case Listings s listing_id of
        None \<Rightarrow> (Returned (CErr ERR_LISTING_NOT_FOUND), s)
      | Some l \<Rightarrow>
          if \<not> listing_seller l = tx_sender ctx then (Returned (CErr ERR_NOT_SELLER), s)
          else if \<not> listing_status l = ''active'' then (Returned (CErr ERR_INVALID_STATUS), s)
          else if \<not> is_valid_price new_price then (Returned (CErr ERR_INVALID_PRICE), s)
          else if \<not> is_valid_string new_description 256 then (Returned (CErr ERR_INVALID_INPUT), s)
          else (Returned (COk (CBool True)),
                s\<lparr>Listings := (Listings s)(listing_id \<mapsto>
                     l\<lparr>price := new_price, description := new_description\<rparr>)\<rparr>)))"

definition cancel_listing :: "tx \<Rightarrow> nat \<Rightarrow> market_state \<Rightarrow> outcome \<times> market_state" where
  "cancel_listing ctx listing_id s =
     (if \<not> is_valid_listing_id s listing_id then (Returned (CErr ERR_INVALID_LISTING_ID), s)
      else (case Listings s listing_id of
        None \<Rightarrow> (Returned (CErr ERR_LISTING_NOT_FOUND), s)
      | Some l \<Rightarrow>
          if \<not> listing_seller l = tx_sender ctx then (Returned (CErr ERR_NOT_SELLER), s)
          else if \<not> listing_status l = ''active'' then (Returned (CErr ERR_INVALID_STATUS), s)
          else (Returned (COk (CBool True)),
                s\<lparr>Listings := (Listings s)(listing_id \<mapsto> l\<lparr>listing_status := ''cancelled''\<rparr>)\<rparr>)))"

definition purchase_listing ::
  "deployment \<Rightarrow> tx \<Rightarrow> nat \<Rightarrow> market_state \<Rightarrow> outcome \<times> market_state" where
  "purchase_listing dep ctx listing_id s =
     (if \<not> is_valid_listing_id s listing_id then (Returned (CErr ERR_INVALID_LISTING_ID), s)
      else (case Listings s listing_id of
        None \<Rightarrow> (Returned (CErr ERR_LISTING_NOT_FOUND), s)
      | Some l \<Rightarrow>
          if \<not> listing_status l = ''active'' then (Returned (CErr ERR_INVALID_STATUS), s)
          else if \<not> block_height ctx \<le> listing_expires_at l
            then (Returned (CErr ERR_LISTING_EXPIRED), s)
          else if \<not> is_valid_seller dep ctx (listing_seller l)
            then (Returned (CErr ERR_INVALID_SELLER_market), s)
          else (case stx_transfer (price l) (tx_sender ctx) (listing_seller l) (stx s) of
                  Inr bal \<Rightarrow>
                    (Returned (COk (CBool True)),
                     s\<lparr>stx := bal,
                       Listings := (Listings s)(listing_id \<mapsto> l\<lparr>listing_status := ''sold''\<rparr>)\<rparr>)
                | Inl err \<Rightarrow> (Returned (CErr ERR_INSUFFICIENT_BALANCE), s))))"

definition get_listing :: "nat \<Rightarrow> market_state \<Rightarrow> listing option" where
  "get_listing listing_id s =
     (if is_valid_listing_id s listing_id then Listings s listing_id else None)"

definition get_last_listing_id :: "market_state \<Rightarrow> cval" where
  "get_last_listing_id s = COk (CUInt (last_listing_id s))"

datatype market_op =
    CreateListing string string nat nat
  | UpdateListing nat nat string
  | CancelListing nat
  | PurchaseListing nat

fun market_body :: "deployment \<Rightarrow> tx \<Rightarrow> market_op \<Rightarrow> market_state \<Rightarrow> outcome \<times> market_state" where
  "market_body dep ctx (CreateListing nm descr prc duration) = create_listing ctx nm descr prc duration"
| "market_body dep ctx (UpdateListing listing_id new_price new_description) =
     update_listing ctx listing_id new_price new_description"
| "market_body dep ctx (CancelListing listing_id) = cancel_listing ctx listing_id"
| "market_body dep ctx (PurchaseListing listing_id) = purchase_listing dep ctx listing_id"

definition market_call :: "deployment \<Rightarrow> tx \<Rightarrow> market_op \<Rightarrow> market_state \<Rightarrow> outcome \<times> market_state" where
  "market_call dep ctx op = call_public (market_body dep ctx op)"

fun market_run :: "deployment \<Rightarrow> (tx \<times> market_op) list \<Rightarrow> market_state \<Rightarrow> market_state" where
  "market_run dep [] s = s"
| "market_run dep (c # calls) s = market_run dep calls (snd (market_call dep (fst c) (snd c) s))"

definition market_deployed :: "ledger \<Rightarrow> market_state" where
  "market_deployed bal = \<lparr>stx = bal, Listings = Map.empty, last_listing_id = 0\<rparr>"

section \<open>Invariants, counts and example states\<close>

subsection \<open>What the reached states satisfy\<close>

text \<open>
  Escrows: ids lie between 1 and the counter, amounts are positive, neither party of an
  escrow is the vault, and the vault holds exactly the locked amounts. Disputes and
  listings: a recorded id is never above the counter.
\<close>

definition escrow_inv :: "deployment \<Rightarrow> escrow_state \<Rightarrow> bool" where
  "escrow_inv dep s \<longleftrightarrow>
     (\<forall>i e. Escrows s i = Some e \<longrightarrow>
        1 \<le> i \<and> i \<le> last_escrow_id s \<and> 0 < amount e
        \<and> seller e \<noteq> contract_principal dep \<and> buyer e \<noteq> contract_principal dep)
     \<and> stx s (contract_principal dep) = locked_total s"

text \<open>
  With outside transfers the vault can hold more than the locked amounts: the record
  part of the invariant stays, and the balance covers the locked sum.
\<close>

definition escrow_records_ok :: "deployment \<Rightarrow> escrow_state \<Rightarrow> bool" where
  "escrow_records_ok dep s \<longleftrightarrow>
     (\<forall>i e. Escrows s i = Some e \<longrightarrow>
        1 \<le> i \<and> i \<le> last_escrow_id s \<and> 0 < amount e
        \<and> seller e \<noteq> contract_principal dep \<and> buyer e \<noteq> contract_principal dep)"


definition dispute_inv :: "dispute_state \<Rightarrow> bool" where
  "dispute_inv s \<longleftrightarrow> (\<forall>i d. Disputes s i = Some d \<longrightarrow> i \<le> last_dispute_id s)"

text \<open>A vote record exists only for a recorded dispute.\<close>

definition votes_inv :: "dispute_state \<Rightarrow> bool" where
  "votes_inv s \<longleftrightarrow> (\<forall>i a. has_voted s i a \<longrightarrow> Disputes s i \<noteq> None)"

definition market_inv :: "market_state \<Rightarrow> bool" where
  "market_inv s \<longleftrightarrow> (\<forall>i l. Listings s i = Some l \<longrightarrow> i \<le> last_listing_id s)"

subsection \<open>Counting along a sequence of calls\<close>

text \<open>
  \<open>counted_votes\<close> is the number of successful \<open>vote-on-dispute\<close> calls of one
  arbitrator on one dispute along a sequence of calls; \<open>sold_count\<close> is the number of
  successful \<open>purchase-listing\<close> calls on one listing.
\<close>

fun is_vote_on :: "nat \<Rightarrow> dispute_op \<Rightarrow> bool" where
  "is_vote_on i (VoteOnDispute j v) = (i = j)"
| "is_vote_on i op = False"

fun counted_votes ::
  "deployment \<Rightarrow> nat \<Rightarrow> principal \<Rightarrow> (tx \<times> dispute_op) list \<Rightarrow> dispute_state \<Rightarrow> nat" where
  "counted_votes dep i a [] s = 0"
| "counted_votes dep i a (c # calls) s =
     (if tx_sender (fst c) = a \<and> is_vote_on i (snd c)
         \<and> is_ok (fst (dispute_call dep (fst c) (snd c) s)) then 1 else 0)
     + counted_votes dep i a calls (snd (dispute_call dep (fst c) (snd c) s))"

fun sold_count ::
  "deployment \<Rightarrow> nat \<Rightarrow> (tx \<times> market_op) list \<Rightarrow> market_state \<Rightarrow> nat" where
  "sold_count dep i [] s = 0"
| "sold_count dep i (c # calls) s =
     (if snd c = PurchaseListing i \<and> is_ok (fst (market_call dep (fst c) (snd c) s)) then 1 else 0)
     + sold_count dep i calls (snd (market_call dep (fst c) (snd c) s))"

fun is_create_listing :: "market_op \<Rightarrow> bool" where
  "is_create_listing (CreateListing nm descr prc duration) = True"
| "is_create_listing op = False"

subsection \<open>Example deployments and states\<close>

text \<open>
  Concrete deployments, callers and call sequences on which the theorems below are run.
  In the escrow example \<open>alice\<close> locks 500 for \<open>bob\<close> at block 10. In the dispute
  example four arbitrators are added, \<open>alice\<close> raises a dispute against \<open>bob\<close> at
  block 100 and the arbitrators vote two against two. In the market example
  \<open>wallet_1\<close> lists two items and \<open>wallet_2\<close> buys the first.
\<close>

definition call_by :: "principal \<Rightarrow> nat \<Rightarrow> tx" where
  "call_by p h = \<lparr>tx_sender = p, block_height = h\<rparr>"

definition escrow_example_dep :: deployment where
  "escrow_example_dep = \<lparr>contract_owner = ''deployer'', contract_principal = ''vault''\<rparr>"

definition example_ledger :: ledger where
  "example_ledger = (\<lambda>p. 0)(''alice'' := 1000, ''carol'' := 700)"

definition escrow_example :: escrow_state where
  "escrow_example =
     escrow_run escrow_example_dep [(call_by ''alice'' 10, CreateEscrow ''bob'' 500)]
       (escrow_deployed example_ledger)"

definition escrow_example_record :: escrow where
  "escrow_example_record =
     \<lparr>buyer = ''alice'', seller = ''bob'', amount = 500, state = ''locked'',
      created_at = 10, expires_at = 1018\<rparr>"

definition escrow_example_released :: escrow_state where
  "escrow_example_released =
     escrow_run escrow_example_dep
       [(call_by ''alice'' 10, CreateEscrow ''bob'' 500), (call_by ''alice'' 20, ReleaseFunds 1)]
       (escrow_deployed example_ledger)"


definition dispute_example_dep :: deployment where
  "dispute_example_dep = \<lparr>contract_owner = ''deployer'', contract_principal = ''board''\<rparr>"

definition dispute_example_calls :: "(tx \<times> dispute_op) list" where
  "dispute_example_calls =
     [(call_by ''deployer'' 1, AddArbitrator ''arb1''),
      (call_by ''deployer'' 1, AddArbitrator ''arb2''),
      (call_by ''deployer'' 1, AddArbitrator ''arb3''),
      (call_by ''deployer'' 1, AddArbitrator ''arb4''),
      (call_by ''alice'' 100, RaiseDispute 1 ''bob'' ''late''),
      (call_by ''arb1'' 110, VoteOnDispute 1 True),
      (call_by ''arb2'' 111, VoteOnDispute 1 False),
      (call_by ''arb3'' 112, VoteOnDispute 1 True),
      (call_by ''arb4'' 113, VoteOnDispute 1 False)]"

definition dispute_example :: dispute_state where
  "dispute_example = dispute_run dispute_example_dep dispute_example_calls dispute_deployed"

definition dispute_example_record :: dispute where
  "dispute_example_record =
     \<lparr>escrow_id = 1, initiator = ''alice'', counterparty = ''bob'', reason = ''late'',
      status = ''open'', dispute_created_at = 100, votes_for = 2, votes_against = 2,
      resolution = None\<rparr>"

definition dispute_example_before :: dispute_state where
  "dispute_example_before = dispute_run dispute_example_dep (take 5 dispute_example_calls) dispute_deployed"

definition dispute_example_resolved :: dispute_state where
  "dispute_example_resolved =
     dispute_run dispute_example_dep
       (dispute_example_calls @ [(call_by ''carol'' 244, ResolveDispute 1)]) dispute_deployed"

definition dispute_example_removed :: dispute_state where
  "dispute_example_removed =
     dispute_run dispute_example_dep
       (dispute_example_calls @ [(call_by ''deployer'' 115, RemoveArbitrator ''arb1'')]) dispute_deployed"

definition market_example_dep :: deployment where
  "market_example_dep = \<lparr>contract_owner = ''deployer'', contract_principal = ''market''\<rparr>"

definition market_ledger :: ledger where
  "market_ledger = (\<lambda>p. 0)(''wallet_2'' := 5000000)"

definition market_example_calls :: "(tx \<times> market_op) list" where
  "market_example_calls =
     [(call_by ''wallet_1'' 10, CreateListing ''Item'' ''First'' 1000000 144),
      (call_by ''wallet_1'' 11, CreateListing ''Item'' ''Second'' 500 5),
      (call_by ''wallet_2'' 12, PurchaseListing 1)]"

definition market_example :: market_state where
  "market_example = market_run market_example_dep market_example_calls (market_deployed market_ledger)"

definition market_example_sold :: listing where
  "market_example_sold =
     \<lparr>listing_seller = ''wallet_1'', name = ''Item'', description = ''First'', price = 1000000,
      listing_status = ''sold'', listing_created_at = 10, listing_expires_at = 154\<rparr>"

definition market_example_active :: listing where
  "market_example_active =
     \<lparr>listing_seller = ''wallet_1'', name = ''Item'', description = ''Second'', price = 500,
      listing_status = ''active'', listing_created_at = 11, listing_expires_at = 16\<rparr>"

section \<open>Transactions\<close>

lemma is_ok_iff: "is_ok r \<longleftrightarrow> (\<exists>v. r = Returned (COk v))"
  by (cases r rule: is_ok.cases) simp_all

lemma call_public_ok:
  "call_public body s = (Returned (COk v), s') \<longleftrightarrow> body s = (Returned (COk v), s')"
  by (auto simp: call_public_def Let_def split: prod.splits)

lemma call_public_not_ok:
  "call_public body s = (r, s') \<Longrightarrow> \<not> is_ok r \<Longrightarrow> s' = s"
  by (auto simp: call_public_def Let_def split: prod.splits if_splits)

lemma call_public_cases:
  "call_public body s = (r, s') \<Longrightarrow> (is_ok r \<and> body s = (r, s')) \<or> (\<not> is_ok r \<and> s' = s)"
  by (auto simp: call_public_def Let_def split: prod.splits if_splits)

section \<open>EscrowService: custody\<close>

lemma locked_ids_subset:
  "\<forall>i e. Escrows s i = Some e \<longrightarrow> i \<le> last_escrow_id s \<Longrightarrow> locked_ids s \<subseteq> {..last_escrow_id s}"
  by (auto simp: locked_ids_def)

lemma locked_ids_finite:
  "\<forall>i e. Escrows s i = Some e \<longrightarrow> i \<le> last_escrow_id s \<Longrightarrow> finite (locked_ids s)"
  by (rule finite_subset [OF locked_ids_subset]) simp_all

lemma locked_total_new:
  assumes fin: "finite (locked_ids s)" and fresh: "Escrows s i = None"
    and upd: "Escrows s' = (Escrows s)(i \<mapsto> e)" and lk: "state e = ''locked''"
  shows "locked_total s' = locked_total s + amount e"
proof -
  have ids: "locked_ids s' = insert i (locked_ids s)"
    using fresh upd lk by (auto simp: locked_ids_def)
  have notin: "i \<notin> locked_ids s" using fresh by (simp add: locked_ids_def)
  have same: "(\<Sum>j \<in> locked_ids s. amount (the (Escrows s' j))) = (\<Sum>j \<in> locked_ids s. amount (the (Escrows s j)))"
    using notin upd by (intro sum.cong) auto
  show ?thesis
    unfolding locked_total_def ids using fin notin same upd by simp
qed

lemma locked_total_leave:
  assumes fin: "finite (locked_ids s)" and old: "Escrows s i = Some e" and lk: "state e = ''locked''"
    and upd: "Escrows s' = (Escrows s)(i \<mapsto> e')" and nlk: "state e' \<noteq> ''locked''"
  shows "locked_total s' + amount e = locked_total s"
proof -
  have ids: "locked_ids s' = locked_ids s - {i}"
    using upd nlk by (auto simp: locked_ids_def)
  have mem: "i \<in> locked_ids s" using old lk by (simp add: locked_ids_def)
  have same: "(\<Sum>j \<in> locked_ids s - {i}. amount (the (Escrows s' j))) = (\<Sum>j \<in> locked_ids s - {i}. amount (the (Escrows s j)))"
    using upd by (intro sum.cong) auto
  have "locked_total s = amount (the (Escrows s i)) + (\<Sum>j \<in> locked_ids s - {i}. amount (the (Escrows s j)))"
    unfolding locked_total_def using fin mem by (rule sum.remove)
  then show ?thesis
    unfolding locked_total_def ids using same old by simp
qed

lemma stx_transfer_Inr:
  "stx_transfer a f t bal = Inr bal' \<Longrightarrow>
     0 < a \<and> f \<noteq> t \<and> a \<le> bal f \<and> bal' = bal(f := bal f - a, t := bal t + a)"
  by (auto simp: stx_transfer_def split: if_splits)

lemma uint_add_Some: "uint_add a b = Some c \<Longrightarrow> c = a + b"
  by (auto simp: uint_add_def split: if_splits)

lemma create_escrow_not_ok:
  "create_escrow dep ctx slr amt s = (r, s') \<Longrightarrow> \<not> is_ok r \<Longrightarrow> s' = s"
  unfolding create_escrow_def
  by (auto split: option.splits if_splits sum.splits)

lemma create_escrow_ok:
  "create_escrow dep ctx slr amt s = (r, s') \<Longrightarrow> is_ok r \<Longrightarrow>
     \<exists>bal. stx_transfer amt (tx_sender ctx) (contract_principal dep) (stx s) = Inr bal
       \<and> is_valid_seller dep ctx slr
       \<and> r = Returned (COk (CUInt (last_escrow_id s + 1)))
       \<and> s' = s\<lparr>stx := bal,
        Escrows := (Escrows s)(last_escrow_id s + 1 \<mapsto>
          \<lparr>buyer = tx_sender ctx, seller = slr, amount = amt, state = ''locked'',
           created_at = block_height ctx, expires_at = block_height ctx + ESCROW_DURATION\<rparr>),
        last_escrow_id := last_escrow_id s + 1\<rparr>"
  unfolding create_escrow_def uint_add_def
  by (auto split: option.splits if_splits sum.splits)

lemma escrow_inv_bound: "escrow_inv dep s \<Longrightarrow> \<forall>i e. Escrows s i = Some e \<longrightarrow> i \<le> last_escrow_id s"
  by (simp add: escrow_inv_def)

lemma escrow_inv_rec:
  "escrow_inv dep s \<Longrightarrow> Escrows s i = Some e \<Longrightarrow>
     1 \<le> i \<and> i \<le> last_escrow_id s \<and> 0 < amount e
     \<and> seller e \<noteq> contract_principal dep \<and> buyer e \<noteq> contract_principal dep"
  unfolding escrow_inv_def by blast

lemma escrow_inv_total: "escrow_inv dep s \<Longrightarrow> stx s (contract_principal dep) = locked_total s"
  by (simp add: escrow_inv_def)

lemma escrow_invI:
  assumes "\<And>i e. Escrows s i = Some e \<Longrightarrow>
     1 \<le> i \<and> i \<le> last_escrow_id s \<and> 0 < amount e
     \<and> seller e \<noteq> contract_principal dep \<and> buyer e \<noteq> contract_principal dep"
    and "stx s (contract_principal dep) = locked_total s"
  shows "escrow_inv dep s"
  unfolding escrow_inv_def using assms by blast

lemma create_escrow_effect:
  assumes inv: "escrow_inv dep s" and run: "create_escrow dep ctx slr amt s = (r, s')"
    and ok: "is_ok r"
  shows "escrow_inv dep s' \<and> locked_total s' = locked_total s + amt
     \<and> stx s' (contract_principal dep) = stx s (contract_principal dep) + amt
     \<and> last_escrow_id s + 1 \<in> locked_ids s'"
proof -
  define n where "n = last_escrow_id s + 1"
  define e where "e = \<lparr>buyer = tx_sender ctx, seller = slr, amount = amt, state = ''locked'',
           created_at = block_height ctx, expires_at = block_height ctx + ESCROW_DURATION\<rparr>"
  from create_escrow_ok [OF run ok]
  obtain bal where tr: "stx_transfer amt (tx_sender ctx) (contract_principal dep) (stx s) = Inr bal"
    and valid: "is_valid_seller dep ctx slr"
    and s': "s' = s\<lparr>stx := bal, Escrows := (Escrows s)(n \<mapsto> e), last_escrow_id := n\<rparr>"
    unfolding n_def e_def by blast
  note t = stx_transfer_Inr [OF tr]
  have E': "Escrows s' = (Escrows s)(n \<mapsto> e)" and L': "last_escrow_id s' = n" and B': "stx s' = bal"
    using s' by simp_all
  have bound: "\<forall>i e. Escrows s i = Some e \<longrightarrow> i \<le> last_escrow_id s"
    using inv by (rule escrow_inv_bound)
  have fresh: "Escrows s n = None"
  proof (cases "Escrows s n")
    case (Some x)
    then have "n \<le> last_escrow_id s" using bound by blast
    then show ?thesis by (simp add: n_def)
  qed simp
  have lk: "state e = ''locked''" by (simp add: e_def)
  have am: "amount e = amt" by (simp add: e_def)
  have tot: "locked_total s' = locked_total s + amt"
    using locked_total_new [OF locked_ids_finite [OF bound] fresh E' lk] am by simp
  have bal: "stx s' (contract_principal dep) = stx s (contract_principal dep) + amt"
    using t B' by simp
  have mem: "n \<in> locked_ids s'"
    unfolding locked_ids_def using E' lk by simp
  have "escrow_inv dep s'"
  proof (rule escrow_invI)
    fix i x assume a: "Escrows s' i = Some x"
    show "1 \<le> i \<and> i \<le> last_escrow_id s' \<and> 0 < amount x
        \<and> seller x \<noteq> contract_principal dep \<and> buyer x \<noteq> contract_principal dep"
    proof (cases "i = n")
      case True
      then have "x = e" using a E' by simp
      then show ?thesis using True L' t valid
        by (simp add: e_def is_valid_seller_def n_def)
    next
      case False
      then have "Escrows s i = Some x" using a E' by simp
      from escrow_inv_rec [OF inv this] show ?thesis using L' by (simp add: n_def)
    qed
  next
    show "stx s' (contract_principal dep) = locked_total s'"
      using tot bal escrow_inv_total [OF inv] by simp
  qed
  then show ?thesis using tot bal mem by (simp add: n_def)
qed

lemma create_escrow_inv:
  assumes inv: "escrow_inv dep s" and run: "create_escrow dep ctx slr amt s = (r, s')"
  shows "escrow_inv dep s'"
proof (cases "is_ok r")
  case False
  then have "s' = s" using run by (rule create_escrow_not_ok [rotated])
  then show ?thesis using inv by simp
next
  case True
  from create_escrow_effect [OF inv run True] show ?thesis by simp
qed

lemma release_funds_not_ok:
  "release_funds dep ctx i s = (r, s') \<Longrightarrow> \<not> is_ok r \<Longrightarrow> s' = s"
  unfolding release_funds_def
  by (auto split: option.splits if_splits sum.splits)

lemma release_funds_ok:
  "release_funds dep ctx i s = (r, s') \<Longrightarrow> is_ok r \<Longrightarrow>
     \<exists>e bal. Escrows s i = Some e \<and> is_valid_escrow_id s i
       \<and> (tx_sender ctx = contract_owner dep \<or> tx_sender ctx = buyer e)
       \<and> state e = ''locked'' \<and> block_height ctx \<le> expires_at e
       \<and> stx_transfer (amount e) (contract_principal dep) (seller e) (stx s) = Inr bal
       \<and> r = Returned (COk (CBool True))
       \<and> s' = s\<lparr>stx := bal, Escrows := (Escrows s)(i \<mapsto> e\<lparr>state := ''released''\<rparr>)\<rparr>"
  unfolding release_funds_def
  by (auto split: option.splits if_splits sum.splits)

lemma refund_buyer_not_ok:
  "refund_buyer dep ctx i s = (r, s') \<Longrightarrow> \<not> is_ok r \<Longrightarrow> s' = s"
  unfolding refund_buyer_def
  by (auto split: option.splits if_splits sum.splits)

lemma refund_buyer_ok:
  "refund_buyer dep ctx i s = (r, s') \<Longrightarrow> is_ok r \<Longrightarrow>
     \<exists>e bal. Escrows s i = Some e \<and> is_valid_escrow_id s i
       \<and> tx_sender ctx = contract_owner dep
       \<and> state e = ''locked''
       \<and> stx_transfer (amount e) (contract_principal dep) (buyer e) (stx s) = Inr bal
       \<and> r = Returned (COk (CBool True))
       \<and> s' = s\<lparr>stx := bal, Escrows := (Escrows s)(i \<mapsto> e\<lparr>state := ''refunded''\<rparr>)\<rparr>"
  unfolding refund_buyer_def
  by (auto split: option.splits if_splits sum.splits)

lemma payout_inv:
  assumes inv: "escrow_inv dep s" and old: "Escrows s i = Some e" and lk: "state e = ''locked''"
    and tr: "stx_transfer (amount e) (contract_principal dep) p (stx s) = Inr bal"
    and s': "s' = s\<lparr>stx := bal, Escrows := (Escrows s)(i \<mapsto> e\<lparr>state := st\<rparr>)\<rparr>"
    and st: "st \<noteq> ''locked''"
  shows "escrow_inv dep s' \<and> locked_total s' + amount e = locked_total s
     \<and> stx s' (contract_principal dep) + amount e = stx s (contract_principal dep)"
proof -
  note t = stx_transfer_Inr [OF tr]
  have E': "Escrows s' = (Escrows s)(i \<mapsto> e\<lparr>state := st\<rparr>)"
    and L': "last_escrow_id s' = last_escrow_id s" and B': "stx s' = bal"
    using s' by simp_all
  have bound: "\<forall>i e. Escrows s i = Some e \<longrightarrow> i \<le> last_escrow_id s"
    using inv by (rule escrow_inv_bound)
  have nlk: "state (e\<lparr>state := st\<rparr>) \<noteq> ''locked''" using st by simp
  have tot: "locked_total s' + amount e = locked_total s"
    using locked_total_leave [OF locked_ids_finite [OF bound] old lk E' nlk] .
  have bal: "stx s' (contract_principal dep) + amount e = stx s (contract_principal dep)"
    using t B' by simp
  have "escrow_inv dep s'"
  proof (rule escrow_invI)
    fix j x assume a: "Escrows s' j = Some x"
    show "1 \<le> j \<and> j \<le> last_escrow_id s' \<and> 0 < amount x
        \<and> seller x \<noteq> contract_principal dep \<and> buyer x \<noteq> contract_principal dep"
    proof (cases "j = i")
      case True
      then have "x = e\<lparr>state := st\<rparr>" using a E' by simp
      then show ?thesis using True L' escrow_inv_rec [OF inv old] by simp
    next
      case False
      then have "Escrows s j = Some x" using a E' by simp
      from escrow_inv_rec [OF inv this] show ?thesis using L' by simp
    qed
  next
    show "stx s' (contract_principal dep) = locked_total s'"
      using tot bal escrow_inv_total [OF inv] by simp
  qed
  then show ?thesis using tot bal by simp
qed

lemma release_funds_inv:
  assumes inv: "escrow_inv dep s" and run: "release_funds dep ctx i s = (r, s')"
  shows "escrow_inv dep s'"
proof (cases "is_ok r")
  case False
  then have "s' = s" using run by (rule release_funds_not_ok [rotated])
  then show ?thesis using inv by simp
next
  case True
  from release_funds_ok [OF run True] obtain e bal where
    "Escrows s i = Some e" "state e = ''locked''"
    "stx_transfer (amount e) (contract_principal dep) (seller e) (stx s) = Inr bal"
    "s' = s\<lparr>stx := bal, Escrows := (Escrows s)(i \<mapsto> e\<lparr>state := ''released''\<rparr>)\<rparr>"
    by blast
  from payout_inv [OF inv this] show ?thesis by simp
qed

lemma refund_buyer_inv:
  assumes inv: "escrow_inv dep s" and run: "refund_buyer dep ctx i s = (r, s')"
  shows "escrow_inv dep s'"
proof (cases "is_ok r")
  case False
  then have "s' = s" using run by (rule refund_buyer_not_ok [rotated])
  then show ?thesis using inv by simp
next
  case True
  from refund_buyer_ok [OF run True] obtain e bal where
    "Escrows s i = Some e" "state e = ''locked''"
    "stx_transfer (amount e) (contract_principal dep) (buyer e) (stx s) = Inr bal"
    "s' = s\<lparr>stx := bal, Escrows := (Escrows s)(i \<mapsto> e\<lparr>state := ''refunded''\<rparr>)\<rparr>"
    by blast
  from payout_inv [OF inv this] show ?thesis by simp
qed

lemma escrow_body_inv:
  "escrow_inv dep s \<Longrightarrow> escrow_body dep ctx op s = (r, s') \<Longrightarrow> escrow_inv dep s'"
  by (cases op) (auto intro: create_escrow_inv release_funds_inv refund_buyer_inv)

lemma escrow_call_inv:
  assumes "escrow_inv dep s" shows "escrow_inv dep (snd (escrow_call dep ctx op s))"
proof -
  obtain r s' where c: "escrow_call dep ctx op s = (r, s')" by (cases "escrow_call dep ctx op s")
  from call_public_cases [OF c [unfolded escrow_call_def]] show ?thesis
    using assms escrow_body_inv c by auto
qed

lemma escrow_run_inv:
  "escrow_inv dep s \<Longrightarrow> escrow_inv dep (escrow_run dep calls s)"
  by (induction calls arbitrary: s) (simp_all add: escrow_call_inv)

lemma escrow_deployed_inv:
  "bal (contract_principal dep) = 0 \<Longrightarrow> escrow_inv dep (escrow_deployed bal)"
  by (simp add: escrow_inv_def escrow_deployed_def locked_total_def locked_ids_def)


lemmas escrow_eval =
  escrow_call_def call_public_def create_escrow_def release_funds_def refund_buyer_def
  uint_add_def uint_max_def stx_transfer_def is_valid_seller_def is_valid_escrow_id_def
  ESCROW_DURATION_def call_by_def escrow_example_dep_def example_ledger_def escrow_deployed_def

lemma escrow_example_eq:
  "escrow_example =
     \<lparr>stx = (\<lambda>p. 0)(''alice'' := 500, ''carol'' := 700, ''vault'' := 500),
      Escrows = [1 \<mapsto> \<lparr>buyer = ''alice'', seller = ''bob'', amount = 500, state = ''locked'',
                          created_at = 10, expires_at = 1018\<rparr>],
      last_escrow_id = 1\<rparr>"
  unfolding escrow_example_def by (simp add: escrow_eval fun_eq_iff)

lemma escrow_example_release:
  "fst (escrow_call escrow_example_dep (call_by ''alice'' 20) (ReleaseFunds 1) escrow_example)
     = Returned (COk (CBool True))"
  unfolding escrow_example_eq by (simp add: escrow_eval)

lemma escrow_example_create:
  "fst (escrow_call escrow_example_dep (call_by ''carol'' 30) (CreateEscrow ''bob'' 200) escrow_example)
     = Returned (COk (CUInt 2))"
  unfolding escrow_example_eq by (simp add: escrow_eval)

section \<open>EscrowService: release, refund and error values\<close>

lemma call_public_fst: "fst (call_public body s) = fst (body s)"
  by (simp add: call_public_def Let_def split: prod.splits)

lemma release_funds_table:
  "is_valid_escrow_id s i \<Longrightarrow> Escrows s i = Some e \<Longrightarrow>
   escrow_call dep ctx (ReleaseFunds i) s =
     (if \<not> (tx_sender ctx = contract_owner dep \<or> tx_sender ctx = buyer e)
        then (Returned (CErr ERR_NOT_AUTHORIZED), s)
      else if state e \<noteq> ''locked'' then (Returned (CErr ERR_ALREADY_RELEASED), s)
      else if \<not> block_height ctx \<le> expires_at e then (Returned (CErr ERR_ESCROW_EXPIRED), s)
      else (case stx_transfer (amount e) (contract_principal dep) (seller e) (stx s) of
              Inl c \<Rightarrow> (Returned (CErr ERR_TRANSFER_FAILED), s)
            | Inr bal \<Rightarrow> (Returned (COk (CBool True)),
                s\<lparr>stx := bal, Escrows := (Escrows s)(i \<mapsto> e\<lparr>state := ''released''\<rparr>)\<rparr>)))"
  by (simp add: escrow_call_def call_public_def release_funds_def split: sum.splits)

lemma release_funds_ok_iff:
  "is_ok (fst (escrow_call dep ctx (ReleaseFunds i) s)) \<longleftrightarrow>
     is_valid_escrow_id s i \<and>
     (\<exists>e bal. Escrows s i = Some e
        \<and> (tx_sender ctx = contract_owner dep \<or> tx_sender ctx = buyer e)
        \<and> state e = ''locked'' \<and> block_height ctx \<le> expires_at e
        \<and> stx_transfer (amount e) (contract_principal dep) (seller e) (stx s) = Inr bal)"
  unfolding escrow_call_def call_public_fst
  by (auto simp: release_funds_def split: option.splits sum.splits)

lemma locked_amount_le_total:
  assumes inv: "escrow_inv dep s" and old: "Escrows s i = Some e" and lk: "state e = ''locked''"
  shows "amount e \<le> locked_total s"
proof -
  have fin: "finite (locked_ids s)" using locked_ids_finite [OF escrow_inv_bound [OF inv]] .
  have mem: "i \<in> locked_ids s" using old lk by (simp add: locked_ids_def)
  have "amount (the (Escrows s i)) \<le> locked_total s"
    unfolding locked_total_def using fin mem by (rule member_le_sum [rotated 2]) simp
  then show ?thesis using old by simp
qed

lemma payout_possible:
  assumes inv: "escrow_inv dep s" and old: "Escrows s i = Some e" and lk: "state e = ''locked''"
    and p: "p = seller e \<or> p = buyer e"
  shows "stx_transfer (amount e) (contract_principal dep) p (stx s)
     = Inr ((stx s)(contract_principal dep := stx s (contract_principal dep) - amount e,
                    p := stx s p + amount e))"
proof -
  note r = escrow_inv_rec [OF inv old]
  have "amount e \<le> stx s (contract_principal dep)"
    using locked_amount_le_total [OF inv old lk] escrow_inv_total [OF inv] by simp
  moreover have "contract_principal dep \<noteq> p" using r p by auto
  ultimately show ?thesis using r by (simp add: stx_transfer_def)
qed

text \<open>
  C3. \<open>release-funds\<close> returns \<open>(ok true)\<close> exactly when the id is valid and
  refers to a recorded escrow, the caller is the owner or the escrow's buyer, the state
  is \<open>"locked"\<close>, the block height is at most \<open>expires-at\<close> and the transfer from the
  vault to the seller succeeds. For a valid id with a record the checks fail in this
  order: \<open>ERR_NOT_AUTHORIZED\<close>, \<open>ERR_ALREADY_RELEASED\<close>, \<open>ERR_ESCROW_EXPIRED\<close>,
  \<open>ERR_TRANSFER_FAILED\<close>, each leaving the state as it was; on success the state of
  the escrow becomes \<open>"released"\<close> and the ledger is the one the transfer returns. In a
  state reached from the deployed contract every recorded id is valid and the transfer
  of a locked escrow cannot fail, so there the call succeeds exactly when the caller is
  authorised, the escrow is locked and it has not expired.
\<close>

theorem release_funds_outcome:
  "(is_ok (fst (escrow_call dep ctx (ReleaseFunds i) s)) \<longleftrightarrow>
      is_valid_escrow_id s i \<and>
      (\<exists>e bal. Escrows s i = Some e
         \<and> (tx_sender ctx = contract_owner dep \<or> tx_sender ctx = buyer e)
         \<and> state e = ''locked'' \<and> block_height ctx \<le> expires_at e
         \<and> stx_transfer (amount e) (contract_principal dep) (seller e) (stx s) = Inr bal))
   \<and> (is_valid_escrow_id s i \<and> Escrows s i = Some e \<longrightarrow>
        escrow_call dep ctx (ReleaseFunds i) s =
          (if \<not> (tx_sender ctx = contract_owner dep \<or> tx_sender ctx = buyer e)
             then (Returned (CErr ERR_NOT_AUTHORIZED), s)
           else if state e \<noteq> ''locked'' then (Returned (CErr ERR_ALREADY_RELEASED), s)
           else if \<not> block_height ctx \<le> expires_at e then (Returned (CErr ERR_ESCROW_EXPIRED), s)
           else (case stx_transfer (amount e) (contract_principal dep) (seller e) (stx s) of
                   Inl c \<Rightarrow> (Returned (CErr ERR_TRANSFER_FAILED), s)
                 | Inr bal \<Rightarrow> (Returned (COk (CBool True)),
                     s\<lparr>stx := bal, Escrows := (Escrows s)(i \<mapsto> e\<lparr>state := ''released''\<rparr>)\<rparr>))))
   \<and> (b0 (contract_principal dep) = 0 \<and> t = escrow_run dep calls (escrow_deployed b0)
        \<and> Escrows t j = Some x \<longrightarrow>
        is_valid_escrow_id t j
        \<and> (is_ok (fst (escrow_call dep ctx (ReleaseFunds j) t)) \<longleftrightarrow>
             (tx_sender ctx = contract_owner dep \<or> tx_sender ctx = buyer x)
             \<and> state x = ''locked'' \<and> block_height ctx \<le> expires_at x))"
proof (intro conjI impI)
  show "is_ok (fst (escrow_call dep ctx (ReleaseFunds i) s)) \<longleftrightarrow>
      is_valid_escrow_id s i \<and>
      (\<exists>e bal. Escrows s i = Some e
         \<and> (tx_sender ctx = contract_owner dep \<or> tx_sender ctx = buyer e)
         \<and> state e = ''locked'' \<and> block_height ctx \<le> expires_at e
         \<and> stx_transfer (amount e) (contract_principal dep) (seller e) (stx s) = Inr bal)"
    by (rule release_funds_ok_iff)
next
  assume "is_valid_escrow_id s i \<and> Escrows s i = Some e"
  then show "escrow_call dep ctx (ReleaseFunds i) s =
          (if \<not> (tx_sender ctx = contract_owner dep \<or> tx_sender ctx = buyer e)
             then (Returned (CErr ERR_NOT_AUTHORIZED), s)
           else if state e \<noteq> ''locked'' then (Returned (CErr ERR_ALREADY_RELEASED), s)
           else if \<not> block_height ctx \<le> expires_at e then (Returned (CErr ERR_ESCROW_EXPIRED), s)
           else (case stx_transfer (amount e) (contract_principal dep) (seller e) (stx s) of
                   Inl c \<Rightarrow> (Returned (CErr ERR_TRANSFER_FAILED), s)
                 | Inr bal \<Rightarrow> (Returned (COk (CBool True)),
                     s\<lparr>stx := bal, Escrows := (Escrows s)(i \<mapsto> e\<lparr>state := ''released''\<rparr>)\<rparr>)))"
    using release_funds_table by blast
next
  assume a: "b0 (contract_principal dep) = 0 \<and> t = escrow_run dep calls (escrow_deployed b0)
        \<and> Escrows t j = Some x"
  then have z: "b0 (contract_principal dep) = 0" and teq: "t = escrow_run dep calls (escrow_deployed b0)"
    and old: "Escrows t j = Some x" by blast+
  have inv: "escrow_inv dep t"
    unfolding teq using escrow_deployed_inv [of b0 dep, OF z] by (rule escrow_run_inv)
  show v: "is_valid_escrow_id t j"
    using escrow_inv_rec [OF inv old] by (simp add: is_valid_escrow_id_def)
  show "is_ok (fst (escrow_call dep ctx (ReleaseFunds j) t)) \<longleftrightarrow>
             (tx_sender ctx = contract_owner dep \<or> tx_sender ctx = buyer x)
             \<and> state x = ''locked'' \<and> block_height ctx \<le> expires_at x"
  proof (cases "state x = ''locked''")
    case True
    from payout_possible [OF inv old True, of "seller x"] show ?thesis
      using v old True by (simp add: release_funds_ok_iff)
  next
    case False
    then show ?thesis using old by (simp add: release_funds_ok_iff)
  qed
qed

lemma escrow_example_facts:
  "is_valid_escrow_id escrow_example 1"
  "Escrows escrow_example 1 = Some escrow_example_record"
  "example_ledger (contract_principal escrow_example_dep) = 0"
  "stx escrow_example = (\<lambda>p. 0)(''alice'' := 500, ''carol'' := 700, ''vault'' := 500)"
  by (simp_all add: escrow_example_eq is_valid_escrow_id_def escrow_example_record_def
        example_ledger_def escrow_example_dep_def)

theorem release_funds_outcome_witness:
  "is_valid_escrow_id escrow_example 1
   \<and> Escrows escrow_example 1 = Some escrow_example_record
   \<and> example_ledger (contract_principal escrow_example_dep) = 0
   \<and> is_ok (fst (escrow_call escrow_example_dep (call_by ''alice'' 20) (ReleaseFunds 1) escrow_example))
   \<and> escrow_call escrow_example_dep (call_by ''alice'' 20) (ReleaseFunds 1) escrow_example =
       (Returned (COk (CBool True)),
        escrow_example\<lparr>stx := (\<lambda>p. 0)(''alice'' := 500, ''carol'' := 700, ''vault'' := 0, ''bob'' := 500),
          Escrows := (Escrows escrow_example)(1 \<mapsto> escrow_example_record\<lparr>state := ''released''\<rparr>)\<rparr>)
   \<and> escrow_call escrow_example_dep (call_by ''carol'' 20) (ReleaseFunds 1) escrow_example =
       (Returned (CErr (CErr (CUInt 100))), escrow_example)
   \<and> escrow_call escrow_example_dep (call_by ''alice'' 1019) (ReleaseFunds 1) escrow_example =
       (Returned (CErr (CErr (CUInt 107))), escrow_example)"
proof -
  note f = escrow_example_facts
  have tr: "stx_transfer 500 ''vault'' ''bob'' ((\<lambda>p. 0)(''alice'' := 500, ''carol'' := 700, ''vault'' := 500))
     = Inr ((\<lambda>p. 0)(''alice'' := 500, ''carol'' := 700, ''vault'' := 0, ''bob'' := 500))"
    by (simp add: stx_transfer_def fun_eq_iff)
  note w = release_funds_outcome [where s = escrow_example and i = 1 and e = escrow_example_record
      and dep = escrow_example_dep and t = escrow_example and j = 1 and x = escrow_example_record
      and ?b0.0 = example_ledger and calls = "[(call_by ''alice'' 10, CreateEscrow ''bob'' 500)]"]
  show ?thesis
    using w [where ctx = "call_by ''alice'' 20"] w [where ctx = "call_by ''carol'' 20"]
      w [where ctx = "call_by ''alice'' 1019"] f tr
    by (simp add: escrow_example_def [symmetric] escrow_example_record_def call_by_def
        escrow_example_dep_def ERR_NOT_AUTHORIZED_def ERR_ESCROW_EXPIRED_def)
qed

lemma refund_buyer_table:
  "is_valid_escrow_id s i \<Longrightarrow> Escrows s i = Some e \<Longrightarrow>
   escrow_call dep ctx (RefundBuyer i) s =
     (if \<not> tx_sender ctx = contract_owner dep then (Returned (CErr ERR_NOT_AUTHORIZED), s)
      else if state e \<noteq> ''locked'' then (Returned (CErr ERR_ALREADY_RELEASED), s)
      else (case stx_transfer (amount e) (contract_principal dep) (buyer e) (stx s) of
              Inl c \<Rightarrow> (Returned (CErr ERR_TRANSFER_FAILED), s)
            | Inr bal \<Rightarrow> (Returned (COk (CBool True)),
                s\<lparr>stx := bal, Escrows := (Escrows s)(i \<mapsto> e\<lparr>state := ''refunded''\<rparr>)\<rparr>)))"
  by (simp add: escrow_call_def call_public_def refund_buyer_def split: sum.splits)

lemma refund_buyer_ok_iff:
  "is_ok (fst (escrow_call dep ctx (RefundBuyer i) s)) \<longleftrightarrow>
     is_valid_escrow_id s i \<and>
     (\<exists>e bal. Escrows s i = Some e
        \<and> tx_sender ctx = contract_owner dep \<and> state e = ''locked''
        \<and> stx_transfer (amount e) (contract_principal dep) (buyer e) (stx s) = Inr bal)"
  unfolding escrow_call_def call_public_fst
  by (auto simp: refund_buyer_def split: option.splits sum.splits)

text \<open>
  C4. \<open>refund-buyer\<close> succeeds only for the owner and only on a locked escrow; on a
  recorded escrow any other caller, the buyer included, gets \<open>ERR_NOT_AUTHORIZED\<close> and
  the state stays as it was. The block height is never consulted: in a state reached
  from the deployed contract the owner's refund of a locked escrow succeeds at every
  block height, moves the amount from the vault to the buyer and sets the state to
  \<open>"refunded"\<close>.
\<close>

theorem refund_buyer_outcome:
  "(is_ok (fst (escrow_call dep ctx (RefundBuyer i) s)) \<longrightarrow>
      tx_sender ctx = contract_owner dep \<and> (\<exists>e. Escrows s i = Some e \<and> state e = ''locked''))
   \<and> (is_valid_escrow_id s i \<and> Escrows s i = Some e \<and> tx_sender ctx \<noteq> contract_owner dep \<longrightarrow>
        escrow_call dep ctx (RefundBuyer i) s = (Returned (CErr ERR_NOT_AUTHORIZED), s))
   \<and> (b0 (contract_principal dep) = 0 \<and> t = escrow_run dep calls (escrow_deployed b0)
        \<and> Escrows t j = Some x \<and> state x = ''locked'' \<and> tx_sender ctx2 = contract_owner dep \<longrightarrow>
        escrow_call dep ctx2 (RefundBuyer j) t =
          (Returned (COk (CBool True)),
           t\<lparr>stx := (stx t)(contract_principal dep := stx t (contract_principal dep) - amount x,
                             buyer x := stx t (buyer x) + amount x),
             Escrows := (Escrows t)(j \<mapsto> x\<lparr>state := ''refunded''\<rparr>)\<rparr>)
        \<and> amount x \<le> stx t (contract_principal dep)
        \<and> buyer x \<noteq> contract_principal dep)"
proof (intro conjI impI)
  assume "is_ok (fst (escrow_call dep ctx (RefundBuyer i) s))"
  then show "tx_sender ctx = contract_owner dep" and "\<exists>e. Escrows s i = Some e \<and> state e = ''locked''"
    unfolding refund_buyer_ok_iff by blast+
next
  assume "is_valid_escrow_id s i \<and> Escrows s i = Some e \<and> tx_sender ctx \<noteq> contract_owner dep"
  then show "escrow_call dep ctx (RefundBuyer i) s = (Returned (CErr ERR_NOT_AUTHORIZED), s)"
    using refund_buyer_table [of s i e dep ctx] by simp
next
  assume a: "b0 (contract_principal dep) = 0 \<and> t = escrow_run dep calls (escrow_deployed b0)
        \<and> Escrows t j = Some x \<and> state x = ''locked'' \<and> tx_sender ctx2 = contract_owner dep"
  then have z: "b0 (contract_principal dep) = 0" and teq: "t = escrow_run dep calls (escrow_deployed b0)"
    and old: "Escrows t j = Some x" and lk: "state x = ''locked''"
    and ow: "tx_sender ctx2 = contract_owner dep" by blast+
  have inv: "escrow_inv dep t"
    unfolding teq using escrow_deployed_inv [of b0 dep, OF z] by (rule escrow_run_inv)
  have v: "is_valid_escrow_id t j"
    using escrow_inv_rec [OF inv old] by (simp add: is_valid_escrow_id_def)
  note p = payout_possible [OF inv old lk, of "buyer x"]
  show "escrow_call dep ctx2 (RefundBuyer j) t =
          (Returned (COk (CBool True)),
           t\<lparr>stx := (stx t)(contract_principal dep := stx t (contract_principal dep) - amount x,
                             buyer x := stx t (buyer x) + amount x),
             Escrows := (Escrows t)(j \<mapsto> x\<lparr>state := ''refunded''\<rparr>)\<rparr>)"
    using refund_buyer_table [OF v old, of dep ctx2] p lk ow by simp
  show "amount x \<le> stx t (contract_principal dep)"
    using locked_amount_le_total [OF inv old lk] escrow_inv_total [OF inv] by simp
  show "buyer x \<noteq> contract_principal dep"
    using escrow_inv_rec [OF inv old] by simp
qed

theorem refund_buyer_outcome_witness:
  "is_valid_escrow_id escrow_example 1
   \<and> Escrows escrow_example 1 = Some escrow_example_record
   \<and> example_ledger (contract_principal escrow_example_dep) = 0
   \<and> state escrow_example_record = ''locked''
   \<and> expires_at escrow_example_record < block_height (call_by ''deployer'' 5000)
   \<and> tx_sender (call_by ''deployer'' 5000) = contract_owner escrow_example_dep
   \<and> tx_sender (call_by ''alice'' 20) \<noteq> contract_owner escrow_example_dep
   \<and> is_ok (fst (escrow_call escrow_example_dep (call_by ''deployer'' 5000) (RefundBuyer 1) escrow_example))
   \<and> escrow_call escrow_example_dep (call_by ''deployer'' 5000) (RefundBuyer 1) escrow_example =
       (Returned (COk (CBool True)),
        escrow_example\<lparr>stx := (\<lambda>p. 0)(''alice'' := 1000, ''carol'' := 700, ''vault'' := 0),
          Escrows := (Escrows escrow_example)(1 \<mapsto> escrow_example_record\<lparr>state := ''refunded''\<rparr>)\<rparr>)
   \<and> escrow_call escrow_example_dep (call_by ''alice'' 20) (RefundBuyer 1) escrow_example =
       (Returned (CErr (CErr (CUInt 100))), escrow_example)"
proof -
  note f = escrow_example_facts
  have g: "state escrow_example_record = ''locked''"
    "expires_at escrow_example_record < block_height (call_by ''deployer'' 5000)"
    "tx_sender (call_by ''deployer'' 5000) = contract_owner escrow_example_dep"
    "tx_sender (call_by ''alice'' 20) \<noteq> contract_owner escrow_example_dep"
    by (simp_all add: escrow_example_record_def call_by_def escrow_example_dep_def)
  have b: "(stx escrow_example)(contract_principal escrow_example_dep :=
               stx escrow_example (contract_principal escrow_example_dep) - amount escrow_example_record,
             buyer escrow_example_record := stx escrow_example (buyer escrow_example_record) + amount escrow_example_record)
     = (\<lambda>p. 0)(''alice'' := 1000, ''carol'' := 700, ''vault'' := 0)"
    by (simp add: f escrow_example_dep_def escrow_example_record_def fun_eq_iff)
  note w = refund_buyer_outcome [where s = escrow_example and i = 1 and e = escrow_example_record
      and dep = escrow_example_dep and t = escrow_example and j = 1 and x = escrow_example_record
      and ?b0.0 = example_ledger and calls = "[(call_by ''alice'' 10, CreateEscrow ''bob'' 500)]"
      and ?ctx2.0 = "call_by ''deployer'' 5000", unfolded escrow_example_def [symmetric] b]
  have c: "escrow_call escrow_example_dep (call_by ''deployer'' 5000) (RefundBuyer 1) escrow_example =
       (Returned (COk (CBool True)),
        escrow_example\<lparr>stx := (\<lambda>p. 0)(''alice'' := 1000, ''carol'' := 700, ''vault'' := 0),
          Escrows := (Escrows escrow_example)(1 \<mapsto> escrow_example_record\<lparr>state := ''refunded''\<rparr>)\<rparr>)"
    using w [where ctx = "call_by ''alice'' 20"] f g by blast
  have d: "escrow_call escrow_example_dep (call_by ''alice'' 20) (RefundBuyer 1) escrow_example =
       (Returned (CErr (CErr (CUInt 100))), escrow_example)"
    using w [where ctx = "call_by ''alice'' 20"] f g unfolding ERR_NOT_AUTHORIZED_def by blast
  have "is_ok (fst (escrow_call escrow_example_dep (call_by ''deployer'' 5000) (RefundBuyer 1) escrow_example))"
    unfolding c by simp
  then show ?thesis using c d f g by blast
qed

text \<open>
  C8, as stated, fails. \<open>create-escrow\<close> with amount 0 returns
  \<open>(err (err u105))\<close>: the error value is the response \<open>(err u105)\<close>, not the number
  \<open>u105\<close>, because \<open>ERR_INVALID_AMOUNT\<close> is itself defined as \<open>(err u105)\<close> and the
  code wraps it in another \<open>err\<close>. The same holds for \<open>release-funds\<close> by a caller
  who is neither buyer nor owner, which returns \<open>(err (err u100))\<close>.
\<close>

theorem escrow_error_bare_code_counterexample:
  "escrow_call escrow_example_dep (call_by ''alice'' 10) (CreateEscrow ''bob'' 0) (escrow_deployed example_ledger)
     = (Returned (CErr (CErr (CUInt 105))), escrow_deployed example_ledger)
   \<and> fst (escrow_call escrow_example_dep (call_by ''alice'' 10) (CreateEscrow ''bob'' 0) (escrow_deployed example_ledger))
     \<noteq> Returned (CErr (CUInt 105))
   \<and> escrow_call escrow_example_dep (call_by ''carol'' 20) (ReleaseFunds 1) escrow_example
     = (Returned (CErr (CErr (CUInt 100))), escrow_example)
   \<and> fst (escrow_call escrow_example_dep (call_by ''carol'' 20) (ReleaseFunds 1) escrow_example)
     \<noteq> Returned (CErr (CUInt 100))"
proof -
  have a: "escrow_call escrow_example_dep (call_by ''alice'' 10) (CreateEscrow ''bob'' 0) (escrow_deployed example_ledger)
     = (Returned (CErr (CErr (CUInt 105))), escrow_deployed example_ledger)"
    by (simp add: escrow_call_def call_public_def create_escrow_def uint_add_def uint_max_def
        ESCROW_DURATION_def call_by_def escrow_deployed_def ERR_INVALID_AMOUNT_def)
  have b: "escrow_call escrow_example_dep (call_by ''carol'' 20) (ReleaseFunds 1) escrow_example
     = (Returned (CErr (CErr (CUInt 100))), escrow_example)"
    using release_funds_table [OF escrow_example_facts(1,2), of escrow_example_dep "call_by ''carol'' 20"]
    by (simp add: call_by_def escrow_example_dep_def escrow_example_record_def ERR_NOT_AUTHORIZED_def)
  show ?thesis unfolding a b by simp
qed

lemma escrow_codes:
  "ERR_NOT_AUTHORIZED = CErr (CUInt 100)" "ERR_ESCROW_NOT_FOUND = CErr (CUInt 101)"
  "ERR_ALREADY_RELEASED = CErr (CUInt 102)" "ERR_TRANSFER_FAILED = CErr (CUInt 103)"
  "ERR_INVALID_ESCROW_ID = CErr (CUInt 104)" "ERR_INVALID_AMOUNT = CErr (CUInt 105)"
  "ERR_INVALID_SELLER = CErr (CUInt 106)" "ERR_ESCROW_EXPIRED = CErr (CUInt 107)"
  by (simp_all add: ERR_NOT_AUTHORIZED_def ERR_ESCROW_NOT_FOUND_def ERR_ALREADY_RELEASED_def
      ERR_TRANSFER_FAILED_def ERR_INVALID_ESCROW_ID_def ERR_INVALID_AMOUNT_def
      ERR_INVALID_SELLER_def ERR_ESCROW_EXPIRED_def)

lemma create_escrow_errors:
  "fst (create_escrow dep ctx slr amt s) = Returned (CErr v) \<Longrightarrow>
     v = CErr (CUInt 105) \<or> v = CErr (CUInt 106) \<or> v = CErr (CUInt 103)"
  unfolding create_escrow_def escrow_codes
  by (auto split: option.splits if_splits sum.splits)

lemma release_funds_errors:
  "fst (release_funds dep ctx i s) = Returned (CErr v) \<Longrightarrow>
     v = CErr (CUInt 104) \<or> v = CErr (CUInt 101) \<or> v = CErr (CUInt 100)
     \<or> v = CErr (CUInt 102) \<or> v = CErr (CUInt 107) \<or> v = CErr (CUInt 103)"
  unfolding release_funds_def escrow_codes
  by (auto split: option.splits if_splits sum.splits)

lemma refund_buyer_errors:
  "fst (refund_buyer dep ctx i s) = Returned (CErr v) \<Longrightarrow>
     v = CErr (CUInt 104) \<or> v = CErr (CUInt 101) \<or> v = CErr (CUInt 100)
     \<or> v = CErr (CUInt 102) \<or> v = CErr (CUInt 103)"
  unfolding refund_buyer_def escrow_codes
  by (auto split: option.splits if_splits sum.splits)

text \<open>
  C8, amended. Every error result of the escrow operations carries as its error value
  a response \<open>(err uN)\<close> with N between 100 and 107; \<open>get-escrow\<close> fails with
  \<open>(err (err u104))\<close> or \<open>(err (err u101))\<close>.
\<close>

theorem escrow_error_values:
  "(fst (escrow_call dep ctx op s) = Returned (CErr v) \<longrightarrow>
      (\<exists>n. v = CErr (CUInt n) \<and> 100 \<le> n \<and> n \<le> 107))
   \<and> (get_escrow i t = CErr w \<longrightarrow> w = CErr (CUInt 104) \<or> w = CErr (CUInt 101))"
proof (intro conjI impI)
  assume a: "fst (escrow_call dep ctx op s) = Returned (CErr v)"
  then have b: "fst (escrow_body dep ctx op s) = Returned (CErr v)"
    by (simp add: escrow_call_def call_public_fst)
  show "\<exists>n. v = CErr (CUInt n) \<and> 100 \<le> n \<and> n \<le> 107"
  proof (cases op)
    case (CreateEscrow slr amt)
    then show ?thesis using create_escrow_errors [of dep ctx slr amt s v] b by auto
  next
    case (ReleaseFunds k)
    then show ?thesis using release_funds_errors [of dep ctx k s v] b by auto
  next
    case (RefundBuyer k)
    then show ?thesis using refund_buyer_errors [of dep ctx k s v] b by auto
  qed
next
  assume "get_escrow i t = CErr w"
  then show "w = CErr (CUInt 104) \<or> w = CErr (CUInt 101)"
    unfolding get_escrow_def escrow_codes by (auto split: option.splits if_splits)
qed

theorem escrow_error_values_witness:
  "fst (escrow_call escrow_example_dep (call_by ''alice'' 10) (CreateEscrow ''bob'' 0) (escrow_deployed example_ledger))
     = Returned (CErr (CErr (CUInt 105)))
   \<and> get_escrow 7 escrow_example = CErr (CErr (CUInt 104))
   \<and> (\<exists>n. CErr (CUInt 105) = CErr (CUInt n) \<and> 100 \<le> n \<and> n \<le> 107)"
proof -
  have a: "fst (escrow_call escrow_example_dep (call_by ''alice'' 10) (CreateEscrow ''bob'' 0) (escrow_deployed example_ledger))
     = Returned (CErr (CErr (CUInt 105)))"
    by (simp add: escrow_call_def call_public_def create_escrow_def uint_add_def uint_max_def
        ESCROW_DURATION_def call_by_def escrow_deployed_def ERR_INVALID_AMOUNT_def)
  have b: "get_escrow 7 escrow_example = CErr (CErr (CUInt 104))"
    by (simp add: get_escrow_def escrow_example_eq is_valid_escrow_id_def escrow_codes)
  from escrow_error_values [of escrow_example_dep "call_by ''alice'' 10" "CreateEscrow ''bob'' 0"
      "escrow_deployed example_ledger" "CErr (CUInt 105)" 7 escrow_example "CErr (CUInt 104)"]
  show ?thesis using a b by simp
qed

section \<open>DisputeResolution: voting and resolution\<close>

lemma vote_on_dispute_not_ok:
  "vote_on_dispute ctx i v s = (r, s') \<Longrightarrow> \<not> is_ok r \<Longrightarrow> s' = s"
  unfolding vote_on_dispute_def update_vote_count_def
  by (auto split: option.splits if_splits)

lemma vote_on_dispute_ok:
  "vote_on_dispute ctx i v s = (r, s') \<Longrightarrow> is_ok r \<Longrightarrow>
     \<exists>d. Disputes s i = Some d \<and> is_valid_dispute_id s i \<and> is_arbitrator s (tx_sender ctx)
       \<and> status d = ''open'' \<and> dispute_created_at d \<le> block_height ctx
       \<and> block_height ctx - dispute_created_at d \<le> VOTING_PERIOD
       \<and> \<not> has_voted s i (tx_sender ctx)
       \<and> r = Returned (COk (CBool True))
       \<and> s' = s\<lparr>Disputes := (Disputes s)(i \<mapsto>
                 d\<lparr>votes_for := (if v then votes_for d + 1 else votes_for d),
                   votes_against := (if v then votes_against d else votes_against d + 1)\<rparr>),
               ArbitratorVotes := (ArbitratorVotes s)((i, tx_sender ctx) \<mapsto> v)\<rparr>"
  unfolding vote_on_dispute_def update_vote_count_def uint_add_def uint_sub_def
  by (auto split: option.splits if_splits)

lemma resolve_dispute_not_ok:
  "resolve_dispute ctx i s = (r, s') \<Longrightarrow> \<not> is_ok r \<Longrightarrow> s' = s"
  unfolding resolve_dispute_def
  by (auto simp: Let_def split: option.splits if_splits)

lemma resolve_dispute_ok:
  "resolve_dispute ctx i s = (r, s') \<Longrightarrow> is_ok r \<Longrightarrow>
     \<exists>d res. Disputes s i = Some d \<and> is_valid_dispute_id s i \<and> status d = ''open''
       \<and> MIN_VOTES_REQUIRED \<le> votes_for d + votes_against d
       \<and> dispute_created_at d \<le> block_height ctx
       \<and> block_height ctx - dispute_created_at d \<le> VOTING_PERIOD
       \<and> res = (if votes_for d > votes_against d then ''for_initiator'' else ''for_counterparty'')
       \<and> r = Returned (COk (CAscii res))
       \<and> s' = s\<lparr>Disputes := (Disputes s)(i \<mapsto> d\<lparr>status := ''resolved'', resolution := Some res\<rparr>)\<rparr>"
  unfolding resolve_dispute_def uint_add_def uint_sub_def
  by (auto simp: Let_def split: option.splits if_splits)

lemma raise_dispute_not_ok:
  "raise_dispute ctx eid cp rsn s = (r, s') \<Longrightarrow> \<not> is_ok r \<Longrightarrow> s' = s"
  unfolding raise_dispute_def
  by (auto split: option.splits if_splits)

lemma raise_dispute_ok:
  "raise_dispute ctx eid cp rsn s = (r, s') \<Longrightarrow> is_ok r \<Longrightarrow>
     r = Returned (COk (CUInt (last_dispute_id s + 1)))
     \<and> s' = s\<lparr>Disputes := (Disputes s)(last_dispute_id s + 1 \<mapsto>
                     \<lparr>escrow_id = eid, initiator = tx_sender ctx, counterparty = cp,
                      reason = rsn, status = ''open'', dispute_created_at = block_height ctx,
                      votes_for = 0, votes_against = 0, resolution = None\<rparr>),
                  last_dispute_id := last_dispute_id s + 1\<rparr>"
  unfolding raise_dispute_def uint_add_def
  by (auto split: option.splits if_splits)

lemma add_arbitrator_cases:
  "add_arbitrator dep ctx a s = (r, s') \<Longrightarrow>
     (\<not> is_ok r \<and> s' = s) \<or> (is_ok r \<and> s' = s\<lparr>Arbitrators := (Arbitrators s)(a \<mapsto> True)\<rparr>)"
  unfolding add_arbitrator_def by (auto split: if_splits)

lemma remove_arbitrator_cases:
  "remove_arbitrator dep ctx a s = (r, s') \<Longrightarrow>
     (\<not> is_ok r \<and> s' = s) \<or> (is_ok r \<and> s' = s\<lparr>Arbitrators := (Arbitrators s)(a := None)\<rparr>)"
  unfolding remove_arbitrator_def by (auto split: if_splits)

lemma set_arbitrator_reward_cases:
  "set_arbitrator_reward dep ctx n s = (r, s') \<Longrightarrow>
     (\<not> is_ok r \<and> s' = s) \<or> (is_ok r \<and> s' = s\<lparr>arbitrator_reward := n\<rparr>)"
  unfolding set_arbitrator_reward_def by (auto split: if_splits)

lemma dispute_call_snd:
  "snd (dispute_call dep ctx op s) = s \<or>
   (is_ok (fst (dispute_body dep ctx op s))
    \<and> snd (dispute_call dep ctx op s) = snd (dispute_body dep ctx op s))"
  by (simp add: dispute_call_def call_public_def Let_def split: prod.splits)

lemma dispute_body_effect:
  assumes b: "dispute_body dep ctx op s = (r, s')" and ok: "is_ok r"
  shows "(\<exists>eid cp rsn. op = RaiseDispute eid cp rsn
            \<and> s' = s\<lparr>Disputes := (Disputes s)(last_dispute_id s + 1 \<mapsto>
                     \<lparr>escrow_id = eid, initiator = tx_sender ctx, counterparty = cp,
                      reason = rsn, status = ''open'', dispute_created_at = block_height ctx,
                      votes_for = 0, votes_against = 0, resolution = None\<rparr>),
                  last_dispute_id := last_dispute_id s + 1\<rparr>)
       \<or> (\<exists>i v d. op = VoteOnDispute i v \<and> Disputes s i = Some d \<and> status d = ''open''
            \<and> \<not> has_voted s i (tx_sender ctx)
            \<and> s' = s\<lparr>Disputes := (Disputes s)(i \<mapsto>
                 d\<lparr>votes_for := (if v then votes_for d + 1 else votes_for d),
                   votes_against := (if v then votes_against d else votes_against d + 1)\<rparr>),
               ArbitratorVotes := (ArbitratorVotes s)((i, tx_sender ctx) \<mapsto> v)\<rparr>)
       \<or> (\<exists>i d res. op = ResolveDispute i \<and> Disputes s i = Some d \<and> status d = ''open''
            \<and> s' = s\<lparr>Disputes := (Disputes s)(i \<mapsto> d\<lparr>status := ''resolved'', resolution := Some res\<rparr>)\<rparr>)
       \<or> (\<exists>m. s' = s\<lparr>Arbitrators := m\<rparr>)
       \<or> (\<exists>n. s' = s\<lparr>arbitrator_reward := n\<rparr>)"
proof (cases op)
  case (RaiseDispute eid cp rsn)
  then have "raise_dispute ctx eid cp rsn s = (r, s')" using b by simp
  from raise_dispute_ok [OF this ok] show ?thesis using RaiseDispute by blast
next
  case (VoteOnDispute i v)
  then have "vote_on_dispute ctx i v s = (r, s')" using b by simp
  from vote_on_dispute_ok [OF this ok] show ?thesis using VoteOnDispute by blast
next
  case (ResolveDispute i)
  then have "resolve_dispute ctx i s = (r, s')" using b by simp
  from resolve_dispute_ok [OF this ok] show ?thesis using ResolveDispute by blast
next
  case (AddArbitrator a)
  then have "add_arbitrator dep ctx a s = (r, s')" using b by simp
  from add_arbitrator_cases [OF this] show ?thesis using ok by blast
next
  case (RemoveArbitrator a)
  then have "remove_arbitrator dep ctx a s = (r, s')" using b by simp
  from remove_arbitrator_cases [OF this] show ?thesis using ok by blast
next
  case (SetArbitratorReward n)
  then have "set_arbitrator_reward dep ctx n s = (r, s')" using b by simp
  from set_arbitrator_reward_cases [OF this] show ?thesis using ok by blast
qed

lemma dispute_call_effect:
  "snd (dispute_call dep ctx op s) = s
       \<or> (\<exists>eid cp rsn. op = RaiseDispute eid cp rsn
            \<and> snd (dispute_call dep ctx op s) = s\<lparr>Disputes := (Disputes s)(last_dispute_id s + 1 \<mapsto>
                     \<lparr>escrow_id = eid, initiator = tx_sender ctx, counterparty = cp,
                      reason = rsn, status = ''open'', dispute_created_at = block_height ctx,
                      votes_for = 0, votes_against = 0, resolution = None\<rparr>),
                  last_dispute_id := last_dispute_id s + 1\<rparr>)
       \<or> (\<exists>i v d. op = VoteOnDispute i v \<and> Disputes s i = Some d \<and> status d = ''open''
            \<and> \<not> has_voted s i (tx_sender ctx)
            \<and> snd (dispute_call dep ctx op s) = s\<lparr>Disputes := (Disputes s)(i \<mapsto>
                 d\<lparr>votes_for := (if v then votes_for d + 1 else votes_for d),
                   votes_against := (if v then votes_against d else votes_against d + 1)\<rparr>),
               ArbitratorVotes := (ArbitratorVotes s)((i, tx_sender ctx) \<mapsto> v)\<rparr>)
       \<or> (\<exists>i d res. op = ResolveDispute i \<and> Disputes s i = Some d \<and> status d = ''open''
            \<and> snd (dispute_call dep ctx op s) = s\<lparr>Disputes := (Disputes s)(i \<mapsto> d\<lparr>status := ''resolved'', resolution := Some res\<rparr>)\<rparr>)
       \<or> (\<exists>m. snd (dispute_call dep ctx op s) = s\<lparr>Arbitrators := m\<rparr>)
       \<or> (\<exists>n. snd (dispute_call dep ctx op s) = s\<lparr>arbitrator_reward := n\<rparr>)"
proof (cases "snd (dispute_call dep ctx op s) = s")
  case True
  then show ?thesis by blast
next
  case False
  then have ok: "is_ok (fst (dispute_body dep ctx op s))"
    and eq: "snd (dispute_call dep ctx op s) = snd (dispute_body dep ctx op s)"
    using dispute_call_snd [of dep ctx op s] by blast+
  have "dispute_body dep ctx op s = (fst (dispute_body dep ctx op s), snd (dispute_body dep ctx op s))"
    by simp
  from dispute_body_effect [OF this ok] show ?thesis unfolding eq by blast
qed

lemma dispute_call_inv:
  assumes inv: "dispute_inv s" shows "dispute_inv (snd (dispute_call dep ctx op s))"
  using dispute_call_effect [of dep ctx op s] inv
  by (elim disjE exE conjE) (auto simp: dispute_inv_def split: if_splits)

lemma dispute_run_inv:
  "dispute_inv s \<Longrightarrow> dispute_inv (dispute_run dep calls s)"
  by (induction calls arbitrary: s) (simp_all add: dispute_call_inv)

lemma dispute_deployed_inv: "dispute_inv dispute_deployed"
  by (simp add: dispute_inv_def dispute_deployed_def)

lemma dispute_resolved_step:
  assumes inv: "dispute_inv s" and old: "Disputes s j = Some d" and res: "status d = ''resolved''"
  shows "Disputes (snd (dispute_call dep ctx op s)) j = Some d"
proof -
  have "j \<le> last_dispute_id s" using inv old by (auto simp: dispute_inv_def)
  then show ?thesis
    using dispute_call_effect [of dep ctx op s] old res
    by (elim disjE exE conjE) (auto split: if_splits)
qed

lemma has_voted_step:
  "has_voted s j a \<Longrightarrow> has_voted (snd (dispute_call dep ctx op s)) j a"
  using dispute_call_effect [of dep ctx op s]
  by (elim disjE exE conjE) (auto simp: has_voted_def split: if_splits)

lemma dispute_codes:
  "ERR_NOT_AUTHORIZED = CErr (CUInt 100)" "ERR_DISPUTE_NOT_FOUND = CErr (CUInt 101)"
  "ERR_INVALID_STATE = CErr (CUInt 102)" "ERR_NOT_ARBITRATOR = CErr (CUInt 103)"
  "ERR_ALREADY_VOTED = CErr (CUInt 104)" "ERR_VOTING_CLOSED = CErr (CUInt 105)"
  "ERR_INSUFFICIENT_VOTES = CErr (CUInt 106)" "ERR_INVALID_VOTE = CErr (CUInt 107)"
  "ERR_NOT_INVOLVED_PARTY = CErr (CUInt 108)" "ERR_INVALID_ESCROW_ID_dispute = CErr (CUInt 109)"
  "ERR_INVALID_REASON = CErr (CUInt 110)" "ERR_INVALID_DISPUTE_ID = CErr (CUInt 111)"
  "ERR_INVALID_REWARD = CErr (CUInt 112)" "ERR_INVALID_PRINCIPAL = CErr (CUInt 113)"
  by (simp_all add: ERR_NOT_AUTHORIZED_def ERR_DISPUTE_NOT_FOUND_def ERR_INVALID_STATE_def
      ERR_NOT_ARBITRATOR_def ERR_ALREADY_VOTED_def ERR_VOTING_CLOSED_def
      ERR_INSUFFICIENT_VOTES_def ERR_INVALID_VOTE_def ERR_NOT_INVOLVED_PARTY_def
      ERR_INVALID_ESCROW_ID_dispute_def ERR_INVALID_REASON_def ERR_INVALID_DISPUTE_ID_def
      ERR_INVALID_REWARD_def ERR_INVALID_PRINCIPAL_def)

lemma resolve_dispute_table:
  "is_valid_dispute_id s i \<Longrightarrow> Disputes s i = Some d \<Longrightarrow> status d = ''open'' \<Longrightarrow>
   MIN_VOTES_REQUIRED \<le> votes_for d + votes_against d \<Longrightarrow>
   votes_for d + votes_against d \<le> uint_max \<Longrightarrow>
   dispute_created_at d \<le> block_height ctx \<Longrightarrow>
   block_height ctx - dispute_created_at d \<le> VOTING_PERIOD \<Longrightarrow>
   dispute_call dep ctx (ResolveDispute i) s =
     (Returned (COk (CAscii (if votes_for d > votes_against d
                             then ''for_initiator'' else ''for_counterparty''))),
      s\<lparr>Disputes := (Disputes s)(i \<mapsto> d\<lparr>status := ''resolved'',
           resolution := Some (if votes_for d > votes_against d
                               then ''for_initiator'' else ''for_counterparty'')\<rparr>)\<rparr>)"
  by (simp add: dispute_call_def call_public_def resolve_dispute_def uint_add_def uint_sub_def Let_def)

text \<open>
  C2. Take a dispute recorded in a state reached from the deployed contract, with
  status \<open>"open"\<close>, at least \<open>MIN_VOTES_REQUIRED = 3\<close> votes in total and a call at
  a block height at most \<open>VOTING_PERIOD = 144\<close> past \<open>created-at\<close>. The two sums are
  read as the contract computes them, in \<open>uint\<close>: the total is representable and the
  block height is not before \<open>created-at\<close>. Then \<open>resolve-dispute\<close>, by any caller,
  succeeds, sets the status to \<open>"resolved"\<close>, stores the resolution and returns it:
  \<open>"for_initiator"\<close> when \<open>votes-for > votes-against\<close> and \<open>"for_counterparty"\<close>
  otherwise, an exact tie included.
\<close>

theorem resolve_dispute_majority:
  assumes reach: "s = dispute_run dep calls dispute_deployed"
    and old: "Disputes s i = Some d" and opn: "status d = ''open''"
    and quorum: "MIN_VOTES_REQUIRED \<le> votes_for d + votes_against d"
    and range: "votes_for d + votes_against d \<le> uint_max"
    and after: "dispute_created_at d \<le> block_height ctx"
    and window: "block_height ctx - dispute_created_at d \<le> VOTING_PERIOD"
  shows "dispute_call dep ctx (ResolveDispute i) s =
     (Returned (COk (CAscii (if votes_for d > votes_against d
                             then ''for_initiator'' else ''for_counterparty''))),
      s\<lparr>Disputes := (Disputes s)(i \<mapsto> d\<lparr>status := ''resolved'',
           resolution := Some (if votes_for d > votes_against d
                               then ''for_initiator'' else ''for_counterparty'')\<rparr>)\<rparr>)
   \<and> (votes_for d = votes_against d \<longrightarrow>
        fst (dispute_call dep ctx (ResolveDispute i) s) = Returned (COk (CAscii ''for_counterparty'')))"
proof -
  have inv: "dispute_inv s" unfolding reach using dispute_deployed_inv by (rule dispute_run_inv)
  then have v: "is_valid_dispute_id s i" using old by (auto simp: dispute_inv_def is_valid_dispute_id_def)
  note t = resolve_dispute_table [OF v old opn quorum range after window, of dep]
  show ?thesis unfolding t by simp
qed

text \<open>
  C10. In a state reached from the deployed contract, \<open>vote-on-dispute\<close> and
  \<open>resolve-dispute\<close> on an id above \<open>last-dispute-id\<close> return
  \<open>(err ERR_DISPUTE_NOT_FOUND)\<close>, that is \<open>(err (err u101))\<close>, and leave the state as it
  was; and for no id at all do they return \<open>(err ERR_INVALID_DISPUTE_ID)\<close>: the map
  lookup is unwrapped first, and a recorded id is never above the counter.
\<close>

theorem invalid_dispute_id_unreachable:
  assumes reach: "s = dispute_run dep calls dispute_deployed"
  shows "(last_dispute_id s < i \<longrightarrow>
           dispute_call dep ctx (VoteOnDispute i v) s = (Returned (CErr (CErr (CUInt 101))), s)
           \<and> dispute_call dep ctx (ResolveDispute i) s = (Returned (CErr (CErr (CUInt 101))), s))
    \<and> fst (dispute_call dep ctx (VoteOnDispute j v) s) \<noteq> Returned (CErr ERR_INVALID_DISPUTE_ID)
    \<and> fst (dispute_call dep ctx (ResolveDispute j) s) \<noteq> Returned (CErr ERR_INVALID_DISPUTE_ID)
    \<and> ERR_DISPUTE_NOT_FOUND = CErr (CUInt 101) \<and> ERR_INVALID_DISPUTE_ID = CErr (CUInt 111)"
proof -
  have inv: "dispute_inv s" unfolding reach using dispute_deployed_inv by (rule dispute_run_inv)
  have none: "Disputes s i = None" if "last_dispute_id s < i"
  proof (cases "Disputes s i")
    case (Some d)
    then have "i \<le> last_dispute_id s" using inv by (auto simp: dispute_inv_def)
    then show ?thesis using that by simp
  qed simp
  have valid: "is_valid_dispute_id s j" if "Disputes s j = Some d" for d
    using inv that by (auto simp: dispute_inv_def is_valid_dispute_id_def)
  have a: "dispute_call dep ctx (VoteOnDispute i v) s = (Returned (CErr (CErr (CUInt 101))), s)"
    and b: "dispute_call dep ctx (ResolveDispute i) s = (Returned (CErr (CErr (CUInt 101))), s)"
    if "last_dispute_id s < i"
    using none [OF that]
    by (simp_all add: dispute_call_def call_public_def vote_on_dispute_def resolve_dispute_def dispute_codes)
  have c: "fst (dispute_call dep ctx (VoteOnDispute j v) s) \<noteq> Returned (CErr ERR_INVALID_DISPUTE_ID)"
  proof (cases "Disputes s j")
    case None
    then show ?thesis
      by (simp add: dispute_call_def call_public_fst vote_on_dispute_def dispute_codes)
  next
    case (Some d)
    from valid [OF this] Some show ?thesis
      unfolding dispute_call_def call_public_fst
      by (auto simp: vote_on_dispute_def update_vote_count_def dispute_codes Let_def
            split: option.splits if_splits)
  qed
  have d: "fst (dispute_call dep ctx (ResolveDispute j) s) \<noteq> Returned (CErr ERR_INVALID_DISPUTE_ID)"
  proof (cases "Disputes s j")
    case None
    then show ?thesis
      by (simp add: dispute_call_def call_public_fst resolve_dispute_def dispute_codes)
  next
    case (Some d)
    from valid [OF this] Some show ?thesis
      unfolding dispute_call_def call_public_fst
      by (auto simp: resolve_dispute_def dispute_codes Let_def split: option.splits if_splits)
  qed
  show ?thesis using a b c d by (simp add: dispute_codes)
qed

lemmas dispute_eval =
  dispute_call_def call_public_def raise_dispute_def vote_on_dispute_def resolve_dispute_def
  add_arbitrator_def remove_arbitrator_def set_arbitrator_reward_def update_vote_count_def
  is_arbitrator_def has_voted_def is_valid_dispute_id_def is_valid_principal_def
  is_valid_reason_def is_valid_escrow_id_dispute_def uint_add_def uint_sub_def uint_max_def
  VOTING_PERIOD_def MIN_VOTES_REQUIRED_def call_by_def dispute_example_dep_def
  dispute_deployed_def Let_def

lemma dispute_example_eq:
  "dispute_example =
     \<lparr>Disputes = [1 \<mapsto> dispute_example_record],
      Arbitrators = [''arb1'' \<mapsto> True, ''arb2'' \<mapsto> True, ''arb3'' \<mapsto> True, ''arb4'' \<mapsto> True],
      ArbitratorVotes = [(1, ''arb1'') \<mapsto> True, (1, ''arb2'') \<mapsto> False,
                         (1, ''arb3'') \<mapsto> True, (1, ''arb4'') \<mapsto> False],
      last_dispute_id = 1, arbitrator_reward = 100\<rparr>"
  unfolding dispute_example_def dispute_example_calls_def dispute_example_record_def
  by (simp add: dispute_eval) (simp add: numeral_2_eq_2)

lemma dispute_example_facts:
  "Disputes dispute_example 1 = Some dispute_example_record"
  "last_dispute_id dispute_example = 1"
  "status dispute_example_record = ''open''"
  "votes_for dispute_example_record = 2" "votes_against dispute_example_record = 2"
  "dispute_created_at dispute_example_record = 100"
  by (simp_all add: dispute_example_eq dispute_example_record_def)

theorem resolve_dispute_majority_witness:
  "Disputes dispute_example 1 = Some dispute_example_record
   \<and> status dispute_example_record = ''open''
   \<and> MIN_VOTES_REQUIRED \<le> votes_for dispute_example_record + votes_against dispute_example_record
   \<and> votes_for dispute_example_record + votes_against dispute_example_record \<le> uint_max
   \<and> dispute_created_at dispute_example_record \<le> block_height (call_by ''carol'' 244)
   \<and> block_height (call_by ''carol'' 244) - dispute_created_at dispute_example_record \<le> VOTING_PERIOD
   \<and> votes_for dispute_example_record = votes_against dispute_example_record
   \<and> dispute_call dispute_example_dep (call_by ''carol'' 244) (ResolveDispute 1) dispute_example =
       (Returned (COk (CAscii ''for_counterparty'')),
        dispute_example\<lparr>Disputes := (Disputes dispute_example)(1 \<mapsto>
           dispute_example_record\<lparr>status := ''resolved'', resolution := Some ''for_counterparty''\<rparr>)\<rparr>)"
proof -
  note f = dispute_example_facts
  have h: "MIN_VOTES_REQUIRED \<le> votes_for dispute_example_record + votes_against dispute_example_record"
    "votes_for dispute_example_record + votes_against dispute_example_record \<le> uint_max"
    "dispute_created_at dispute_example_record \<le> block_height (call_by ''carol'' 244)"
    "block_height (call_by ''carol'' 244) - dispute_created_at dispute_example_record \<le> VOTING_PERIOD"
    by (simp_all add: f MIN_VOTES_REQUIRED_def uint_max_def call_by_def VOTING_PERIOD_def)
  from resolve_dispute_majority [OF dispute_example_def f(1) f(3) h]
  have "dispute_call dispute_example_dep (call_by ''carol'' 244) (ResolveDispute 1) dispute_example =
       (Returned (COk (CAscii ''for_counterparty'')),
        dispute_example\<lparr>Disputes := (Disputes dispute_example)(1 \<mapsto>
           dispute_example_record\<lparr>status := ''resolved'', resolution := Some ''for_counterparty''\<rparr>)\<rparr>)"
    by (simp add: f(4,5))
  moreover have "votes_for dispute_example_record = votes_against dispute_example_record"
    by (simp add: f(4,5))
  ultimately show ?thesis using f(1,3) h by (intro conjI)
qed

theorem invalid_dispute_id_unreachable_witness:
  "last_dispute_id dispute_example < 2
   \<and> dispute_call dispute_example_dep (call_by ''arb1'' 120) (VoteOnDispute 2 True) dispute_example
       = (Returned (CErr (CErr (CUInt 101))), dispute_example)
   \<and> dispute_call dispute_example_dep (call_by ''carol'' 120) (ResolveDispute 2) dispute_example
       = (Returned (CErr (CErr (CUInt 101))), dispute_example)
   \<and> dispute_call dispute_example_dep (call_by ''arb1'' 120) (VoteOnDispute 999 True) dispute_example
       = (Returned (CErr (CErr (CUInt 101))), dispute_example)"
proof -
  note w = invalid_dispute_id_unreachable [OF dispute_example_def]
  have l: "last_dispute_id dispute_example < 2" "last_dispute_id dispute_example < 999"
    by (simp_all add: dispute_example_facts)
  show ?thesis
    using w [where i = 2 and ctx = "call_by ''arb1'' 120" and v = True]
      w [where i = 2 and ctx = "call_by ''carol'' 120"]
      w [where i = 999 and ctx = "call_by ''arb1'' 120" and v = True] l
    by simp
qed

lemma dispute_call_ok:
  "dispute_call dep ctx op s = (r, s') \<Longrightarrow> is_ok r \<Longrightarrow> dispute_body dep ctx op s = (r, s')"
  unfolding dispute_call_def by (drule call_public_cases) simp

lemma dispute_call_not_ok:
  "\<not> is_ok (fst (dispute_call dep ctx op s)) \<Longrightarrow> snd (dispute_call dep ctx op s) = s"
  by (auto simp: dispute_call_def call_public_def Let_def split: prod.splits if_splits)

lemma vote_call_ok:
  assumes c: "dispute_call dep ctx (VoteOnDispute i v) s = (r, s')" and ok: "is_ok r"
  shows "\<exists>d. Disputes s i = Some d \<and> is_valid_dispute_id s i \<and> is_arbitrator s (tx_sender ctx)
       \<and> status d = ''open'' \<and> dispute_created_at d \<le> block_height ctx
       \<and> block_height ctx - dispute_created_at d \<le> VOTING_PERIOD
       \<and> \<not> has_voted s i (tx_sender ctx)
       \<and> r = Returned (COk (CBool True))
       \<and> s' = s\<lparr>Disputes := (Disputes s)(i \<mapsto>
                 d\<lparr>votes_for := (if v then votes_for d + 1 else votes_for d),
                   votes_against := (if v then votes_against d else votes_against d + 1)\<rparr>),
               ArbitratorVotes := (ArbitratorVotes s)((i, tx_sender ctx) \<mapsto> v)\<rparr>"
proof -
  have "vote_on_dispute ctx i v s = (r, s')" using dispute_call_ok [OF c ok] by simp
  from vote_on_dispute_ok [OF this ok] show ?thesis .
qed

lemma voted_blocks_vote:
  assumes hv: "has_voted s i (tx_sender ctx)"
  shows "\<not> is_ok (fst (dispute_call dep ctx (VoteOnDispute i v) s))"
proof
  assume ok: "is_ok (fst (dispute_call dep ctx (VoteOnDispute i v) s))"
  have "dispute_call dep ctx (VoteOnDispute i v) s =
      (fst (dispute_call dep ctx (VoteOnDispute i v) s), snd (dispute_call dep ctx (VoteOnDispute i v) s))"
    by simp
  from vote_call_ok [OF this ok] show False using hv by blast
qed

lemma has_voted_run: "has_voted s i a \<Longrightarrow> has_voted (dispute_run dep calls s) i a"
  by (induction calls arbitrary: s) (simp_all add: has_voted_step)

lemma counted_votes_voted: "has_voted s i a \<Longrightarrow> counted_votes dep i a calls s = 0"
proof (induction calls arbitrary: s)
  case Nil
  show ?case by simp
next
  case (Cons c calls)
  have rest: "counted_votes dep i a calls (snd (dispute_call dep (fst c) (snd c) s)) = 0"
    using Cons.IH [OF has_voted_step [OF Cons.prems]] .
  have "\<not> (tx_sender (fst c) = a \<and> is_vote_on i (snd c)
         \<and> is_ok (fst (dispute_call dep (fst c) (snd c) s)))"
  proof
    assume h: "tx_sender (fst c) = a \<and> is_vote_on i (snd c)
         \<and> is_ok (fst (dispute_call dep (fst c) (snd c) s))"
    then obtain v where op: "snd c = VoteOnDispute i v" by (cases "snd c") auto
    from h Cons.prems have "has_voted s i (tx_sender (fst c))" by simp
    from voted_blocks_vote [OF this, of dep v] h op show False by simp
  qed
  then show ?case using rest by simp
qed

lemma vote_sets_has_voted:
  assumes ok: "is_ok (fst (dispute_call dep ctx (VoteOnDispute i v) s))"
  shows "has_voted (snd (dispute_call dep ctx (VoteOnDispute i v) s)) i (tx_sender ctx)"
proof -
  have "dispute_call dep ctx (VoteOnDispute i v) s =
      (fst (dispute_call dep ctx (VoteOnDispute i v) s), snd (dispute_call dep ctx (VoteOnDispute i v) s))"
    by simp
  from vote_call_ok [OF this ok] obtain d where
    "snd (dispute_call dep ctx (VoteOnDispute i v) s) = s\<lparr>Disputes := (Disputes s)(i \<mapsto>
                 d\<lparr>votes_for := (if v then votes_for d + 1 else votes_for d),
                   votes_against := (if v then votes_against d else votes_against d + 1)\<rparr>),
               ArbitratorVotes := (ArbitratorVotes s)((i, tx_sender ctx) \<mapsto> v)\<rparr>"
    by blast
  then show ?thesis by (simp add: has_voted_def)
qed

lemma counted_votes_le_1: "counted_votes dep i a calls s \<le> 1"
proof (induction calls arbitrary: s)
  case Nil
  show ?case by simp
next
  case (Cons c calls)
  show ?case
  proof (cases "tx_sender (fst c) = a \<and> is_vote_on i (snd c)
         \<and> is_ok (fst (dispute_call dep (fst c) (snd c) s))")
    case True
    then obtain v where op: "snd c = VoteOnDispute i v" by (cases "snd c") auto
    have "has_voted (snd (dispute_call dep (fst c) (snd c) s)) i a"
      using vote_sets_has_voted [of dep "fst c" i v s] True op by simp
    from counted_votes_voted [OF this] show ?thesis using True by simp
  next
    case False
    then have "counted_votes dep i a (c # calls) s
        = counted_votes dep i a calls (snd (dispute_call dep (fst c) (snd c) s))"
      by auto
    then show ?thesis using Cons.IH by simp
  qed
qed

lemma already_voted_table:
  "Disputes s i = Some d \<Longrightarrow> is_valid_dispute_id s i \<Longrightarrow> is_arbitrator s (tx_sender ctx) \<Longrightarrow>
   status d = ''open'' \<Longrightarrow> dispute_created_at d \<le> block_height ctx \<Longrightarrow>
   block_height ctx - dispute_created_at d \<le> VOTING_PERIOD \<Longrightarrow>
   has_voted s i (tx_sender ctx) \<Longrightarrow>
   dispute_call dep ctx (VoteOnDispute i v) s = (Returned (CErr ERR_ALREADY_VOTED), s)"
  by (simp add: dispute_call_def call_public_def vote_on_dispute_def uint_sub_def)

text \<open>
  C6, as stated, fails. \<open>arb1\<close> has voted on dispute 1, raised at block 100. A second
  vote by \<open>arb1\<close> at block 300, after the voting window, returns
  \<open>(err ERR_VOTING_CLOSED)\<close> (code 105), not \<open>ERR_ALREADY_VOTED\<close> (code 104): the
  window is checked before the vote record.
\<close>

theorem second_vote_not_always_already_voted_counterexample:
  "has_voted dispute_example 1 ''arb1''
   \<and> dispute_call dispute_example_dep (call_by ''arb1'' 300) (VoteOnDispute 1 True) dispute_example
       = (Returned (CErr (CErr (CUInt 105))), dispute_example)
   \<and> ERR_VOTING_CLOSED = CErr (CUInt 105) \<and> ERR_ALREADY_VOTED = CErr (CUInt 104)"
  unfolding dispute_example_eq dispute_example_record_def
  by (simp add: dispute_eval dispute_codes)

lemma votes_inv_call:
  assumes inv: "votes_inv s" shows "votes_inv (snd (dispute_call dep ctx op s))"
  using dispute_call_effect [of dep ctx op s] inv
  by (elim disjE exE conjE) (auto simp: votes_inv_def has_voted_def split: if_splits)

lemma votes_inv_run: "votes_inv s \<Longrightarrow> votes_inv (dispute_run dep calls s)"
  by (induction calls arbitrary: s) (simp_all add: votes_inv_call)

lemma votes_inv_deployed: "votes_inv dispute_deployed"
  by (simp add: votes_inv_def has_voted_def dispute_deployed_def)

lemma second_vote_table:
  "has_voted s i (tx_sender ctx) \<Longrightarrow> Disputes s i = Some d \<Longrightarrow> is_valid_dispute_id s i \<Longrightarrow>
   dispute_call dep ctx (VoteOnDispute i v) s =
     (if \<not> is_arbitrator s (tx_sender ctx) then (Returned (CErr ERR_NOT_ARBITRATOR), s)
      else if status d \<noteq> ''open'' then (Returned (CErr ERR_VOTING_CLOSED), s)
      else if block_height ctx < dispute_created_at d then (Aborted ArithmeticUnderflow, s)
      else if \<not> block_height ctx - dispute_created_at d \<le> VOTING_PERIOD
        then (Returned (CErr ERR_VOTING_CLOSED), s)
      else (Returned (CErr ERR_ALREADY_VOTED), s))"
  by (simp add: dispute_call_def call_public_def vote_on_dispute_def uint_sub_def)

text \<open>
  C6, amended. A successful \<open>vote-on-dispute\<close> is by a caller with no vote record
  for that dispute; it adds one to \<open>votes-for\<close> if the vote is true and to
  \<open>votes-against\<close> otherwise, leaves the other tally alone and records the vote.
  Along any sequence of calls from any state at most one vote of a given arbitrator on a
  given dispute is counted; once the record exists it stays, and none is counted
  afterwards. A further vote by that arbitrator on that dispute never succeeds and
  leaves the whole state, both tallies included, as it was. What it returns is fixed by
  the order of the checks: \<open>ERR_NOT_ARBITRATOR\<close> (103) if the caller is no longer an
  arbitrator; otherwise \<open>ERR_VOTING_CLOSED\<close> (105) if the dispute is no longer open or
  more than \<open>VOTING_PERIOD\<close> blocks have passed since \<open>created-at\<close>; otherwise
  \<open>ERR_ALREADY_VOTED\<close> (104). (A block height before \<open>created-at\<close>, which the chain
  never produces, aborts the subtraction.) In a state reached from the deployed contract a
  vote record implies that the dispute is recorded under a valid id, so these are all the
  cases.
\<close>

theorem vote_counted_once:
  "(dispute_call dep ctx (VoteOnDispute i v) s = (r, s') \<and> is_ok r \<longrightarrow>
      \<not> has_voted s i (tx_sender ctx)
      \<and> ArbitratorVotes s' (i, tx_sender ctx) = Some v
      \<and> (\<exists>d. Disputes s i = Some d
            \<and> Disputes s' i = Some (d\<lparr>votes_for := (if v then votes_for d + 1 else votes_for d),
                  votes_against := (if v then votes_against d else votes_against d + 1)\<rparr>)))
   \<and> counted_votes dep j a calls t \<le> 1
   \<and> (has_voted t j a \<longrightarrow>
        counted_votes dep j a calls t = 0 \<and> has_voted (dispute_run dep calls t) j a)
   \<and> (has_voted t j (tx_sender ctx2) \<longrightarrow>
        \<not> is_ok (fst (dispute_call dep ctx2 (VoteOnDispute j w) t))
        \<and> snd (dispute_call dep ctx2 (VoteOnDispute j w) t) = t)
   \<and> (has_voted t j (tx_sender ctx2) \<and> Disputes t j = Some d2 \<and> is_valid_dispute_id t j
        \<and> is_arbitrator t (tx_sender ctx2) \<and> status d2 = ''open''
        \<and> dispute_created_at d2 \<le> block_height ctx2
        \<and> block_height ctx2 - dispute_created_at d2 \<le> VOTING_PERIOD \<longrightarrow>
        dispute_call dep ctx2 (VoteOnDispute j w) t = (Returned (CErr ERR_ALREADY_VOTED), t))
   \<and> (has_voted t j (tx_sender ctx2) \<and> Disputes t j = Some d2 \<and> is_valid_dispute_id t j \<longrightarrow>
        dispute_call dep ctx2 (VoteOnDispute j w) t =
          (if \<not> is_arbitrator t (tx_sender ctx2) then (Returned (CErr ERR_NOT_ARBITRATOR), t)
           else if status d2 \<noteq> ''open'' then (Returned (CErr ERR_VOTING_CLOSED), t)
           else if block_height ctx2 < dispute_created_at d2 then (Aborted ArithmeticUnderflow, t)
           else if \<not> block_height ctx2 - dispute_created_at d2 \<le> VOTING_PERIOD
             then (Returned (CErr ERR_VOTING_CLOSED), t)
           else (Returned (CErr ERR_ALREADY_VOTED), t)))
   \<and> (u = dispute_run dep hist dispute_deployed \<and> has_voted u j a \<longrightarrow>
        (\<exists>d. Disputes u j = Some d) \<and> is_valid_dispute_id u j)
   \<and> ERR_NOT_ARBITRATOR = CErr (CUInt 103) \<and> ERR_VOTING_CLOSED = CErr (CUInt 105)
   \<and> ERR_ALREADY_VOTED = CErr (CUInt 104)"
proof (intro conjI impI)
  assume a: "dispute_call dep ctx (VoteOnDispute i v) s = (r, s') \<and> is_ok r"
  then have c: "dispute_call dep ctx (VoteOnDispute i v) s = (r, s')" and ok: "is_ok r" by blast+
  from vote_call_ok [OF c ok] obtain d where d: "Disputes s i = Some d"
    and nv: "\<not> has_voted s i (tx_sender ctx)"
    and s': "s' = s\<lparr>Disputes := (Disputes s)(i \<mapsto>
                 d\<lparr>votes_for := (if v then votes_for d + 1 else votes_for d),
                   votes_against := (if v then votes_against d else votes_against d + 1)\<rparr>),
               ArbitratorVotes := (ArbitratorVotes s)((i, tx_sender ctx) \<mapsto> v)\<rparr>"
    by blast
  show "\<not> has_voted s i (tx_sender ctx)" using nv .
  show "ArbitratorVotes s' (i, tx_sender ctx) = Some v" using s' by simp
  show "\<exists>d. Disputes s i = Some d
            \<and> Disputes s' i = Some (d\<lparr>votes_for := (if v then votes_for d + 1 else votes_for d),
                  votes_against := (if v then votes_against d else votes_against d + 1)\<rparr>)"
    using d s' by simp
next
  show "counted_votes dep j a calls t \<le> 1" by (rule counted_votes_le_1)
next
  assume "has_voted t j a"
  then show "counted_votes dep j a calls t = 0" and "has_voted (dispute_run dep calls t) j a"
    by (rule counted_votes_voted, rule has_voted_run)
next
  assume h: "has_voted t j (tx_sender ctx2)"
  show n: "\<not> is_ok (fst (dispute_call dep ctx2 (VoteOnDispute j w) t))"
    using h by (rule voted_blocks_vote)
  show "snd (dispute_call dep ctx2 (VoteOnDispute j w) t) = t"
    using n by (rule dispute_call_not_ok)
next
  assume "has_voted t j (tx_sender ctx2) \<and> Disputes t j = Some d2 \<and> is_valid_dispute_id t j
        \<and> is_arbitrator t (tx_sender ctx2) \<and> status d2 = ''open''
        \<and> dispute_created_at d2 \<le> block_height ctx2
        \<and> block_height ctx2 - dispute_created_at d2 \<le> VOTING_PERIOD"
  then show "dispute_call dep ctx2 (VoteOnDispute j w) t = (Returned (CErr ERR_ALREADY_VOTED), t)"
    using already_voted_table [of t j d2 ctx2 dep w] by blast
next
  assume "has_voted t j (tx_sender ctx2) \<and> Disputes t j = Some d2 \<and> is_valid_dispute_id t j"
  then show "dispute_call dep ctx2 (VoteOnDispute j w) t =
          (if \<not> is_arbitrator t (tx_sender ctx2) then (Returned (CErr ERR_NOT_ARBITRATOR), t)
           else if status d2 \<noteq> ''open'' then (Returned (CErr ERR_VOTING_CLOSED), t)
           else if block_height ctx2 < dispute_created_at d2 then (Aborted ArithmeticUnderflow, t)
           else if \<not> block_height ctx2 - dispute_created_at d2 \<le> VOTING_PERIOD
             then (Returned (CErr ERR_VOTING_CLOSED), t)
           else (Returned (CErr ERR_ALREADY_VOTED), t))"
    using second_vote_table [of t j ctx2 d2 dep w] by blast
next
  assume a: "u = dispute_run dep hist dispute_deployed \<and> has_voted u j a"
  then have ueq: "u = dispute_run dep hist dispute_deployed" and hv: "has_voted u j a" by blast+
  have vi: "votes_inv u" unfolding ueq using votes_inv_deployed by (rule votes_inv_run)
  have di: "dispute_inv u" unfolding ueq using dispute_deployed_inv by (rule dispute_run_inv)
  from vi hv show e: "\<exists>d. Disputes u j = Some d" by (auto simp: votes_inv_def)
  then show "is_valid_dispute_id u j"
    using di by (auto simp: dispute_inv_def is_valid_dispute_id_def)
next
  show "ERR_NOT_ARBITRATOR = CErr (CUInt 103)" and "ERR_VOTING_CLOSED = CErr (CUInt 105)"
    and "ERR_ALREADY_VOTED = CErr (CUInt 104)"
    by (rule dispute_codes)+
qed

lemma dispute_example_before_eq:
  "dispute_example_before =
     \<lparr>Disputes = [1 \<mapsto> dispute_example_record\<lparr>votes_for := 0, votes_against := 0\<rparr>],
      Arbitrators = [''arb1'' \<mapsto> True, ''arb2'' \<mapsto> True, ''arb3'' \<mapsto> True, ''arb4'' \<mapsto> True],
      ArbitratorVotes = Map.empty,
      last_dispute_id = 1, arbitrator_reward = 100\<rparr>"
  unfolding dispute_example_before_def dispute_example_calls_def dispute_example_record_def
  by (simp add: dispute_eval)

lemma dispute_example_first_vote:
  "dispute_call dispute_example_dep (call_by ''arb1'' 110) (VoteOnDispute 1 True) dispute_example_before =
     (Returned (COk (CBool True)),
      dispute_example_before\<lparr>Disputes := [1 \<mapsto> dispute_example_record\<lparr>votes_for := 1, votes_against := 0\<rparr>],
        ArbitratorVotes := [(1, ''arb1'') \<mapsto> True]\<rparr>)"
  unfolding dispute_example_before_eq dispute_example_record_def
  by (simp add: dispute_eval)

lemma dispute_example_resolved_eq:
  "Disputes dispute_example_resolved 1 =
     Some (dispute_example_record\<lparr>status := ''resolved'', resolution := Some ''for_counterparty''\<rparr>)"
  unfolding dispute_example_resolved_def dispute_example_calls_def dispute_example_record_def
  by (simp add: dispute_eval)

theorem vote_counted_once_witness:
  "is_ok (fst (dispute_call dispute_example_dep (call_by ''arb1'' 110) (VoteOnDispute 1 True) dispute_example_before))
   \<and> \<not> has_voted dispute_example_before 1 ''arb1''
   \<and> Disputes dispute_example_before 1 = Some (dispute_example_record\<lparr>votes_for := 0, votes_against := 0\<rparr>)
   \<and> Disputes (snd (dispute_call dispute_example_dep (call_by ''arb1'' 110) (VoteOnDispute 1 True) dispute_example_before)) 1
       = Some (dispute_example_record\<lparr>votes_for := 1, votes_against := 0\<rparr>)
   \<and> has_voted dispute_example 1 ''arb1''
   \<and> counted_votes dispute_example_dep 1 ''arb1'' [(call_by ''arb1'' 120, VoteOnDispute 1 False)] dispute_example = 0
   \<and> dispute_call dispute_example_dep (call_by ''arb1'' 120) (VoteOnDispute 1 False) dispute_example
       = (Returned (CErr (CErr (CUInt 104))), dispute_example)
   \<and> dispute_call dispute_example_dep (call_by ''arb1'' 300) (VoteOnDispute 1 False) dispute_example
       = (Returned (CErr (CErr (CUInt 105))), dispute_example)
   \<and> has_voted dispute_example_resolved 1 ''arb1''
   \<and> is_arbitrator dispute_example_resolved ''arb1''
   \<and> dispute_call dispute_example_dep (call_by ''arb1'' 200) (VoteOnDispute 1 False) dispute_example_resolved
       = (Returned (CErr (CErr (CUInt 105))), dispute_example_resolved)
   \<and> has_voted dispute_example_removed 1 ''arb1''
   \<and> \<not> is_arbitrator dispute_example_removed ''arb1''
   \<and> dispute_call dispute_example_dep (call_by ''arb1'' 120) (VoteOnDispute 1 False) dispute_example_removed
       = (Returned (CErr (CErr (CUInt 103))), dispute_example_removed)
   \<and> is_valid_dispute_id dispute_example 1"
proof -
  let ?c = "dispute_call dispute_example_dep (call_by ''arb1'' 110) (VoteOnDispute 1 True) dispute_example_before"
  have ok: "is_ok (fst ?c)" unfolding dispute_example_first_vote by simp
  have b: "Disputes dispute_example_before 1 = Some (dispute_example_record\<lparr>votes_for := 0, votes_against := 0\<rparr>)"
    by (simp add: dispute_example_before_eq)
  have hv: "has_voted dispute_example 1 (tx_sender (call_by ''arb1'' 120))"
    and g: "Disputes dispute_example 1 = Some dispute_example_record"
      "is_valid_dispute_id dispute_example 1"
      "is_arbitrator dispute_example (tx_sender (call_by ''arb1'' 120))"
      "status dispute_example_record = ''open''"
      "dispute_created_at dispute_example_record \<le> block_height (call_by ''arb1'' 120)"
      "block_height (call_by ''arb1'' 120) - dispute_created_at dispute_example_record \<le> VOTING_PERIOD"
    by (simp_all add: dispute_example_eq dispute_example_record_def has_voted_def call_by_def
          is_valid_dispute_id_def is_arbitrator_def VOTING_PERIOD_def)
  have tx: "tx_sender (call_by ''arb1'' 120) = ''arb1''" "tx_sender (call_by ''arb1'' 110) = ''arb1''"
    by (simp_all add: call_by_def)
  note w0 = vote_counted_once [where dep = dispute_example_dep and ctx = "call_by ''arb1'' 110"
      and i = 1 and v = True and s = dispute_example_before and r = "fst ?c" and s' = "snd ?c"
      and j = 1 and a = "''arb1''" and w = False
      and calls = "[(call_by ''arb1'' 120, VoteOnDispute 1 False)]"
      and u = dispute_example and hist = dispute_example_calls]
  note w = w0 [where t = dispute_example and ?ctx2.0 = "call_by ''arb1'' 120"
      and ?d2.0 = dispute_example_record]
  note wl = w0 [where t = dispute_example and ?ctx2.0 = "call_by ''arb1'' 300"
      and ?d2.0 = dispute_example_record]
  note wr = w0 [where t = dispute_example_resolved and ?ctx2.0 = "call_by ''arb1'' 200"
      and ?d2.0 = "dispute_example_record\<lparr>status := ''resolved'', resolution := Some ''for_counterparty''\<rparr>"]
  note wm = w0 [where t = dispute_example_removed and ?ctx2.0 = "call_by ''arb1'' 120"
      and ?d2.0 = dispute_example_record]
  have 1: "\<not> has_voted dispute_example_before 1 ''arb1''"
    and 2: "Disputes (snd ?c) 1 = Some (dispute_example_record\<lparr>votes_for := 1, votes_against := 0\<rparr>)"
    using w ok b tx by auto
  have 3: "counted_votes dispute_example_dep 1 ''arb1'' [(call_by ''arb1'' 120, VoteOnDispute 1 False)] dispute_example = 0"
    using w hv tx by simp
  have 4: "dispute_call dispute_example_dep (call_by ''arb1'' 120) (VoteOnDispute 1 False) dispute_example
       = (Returned (CErr (CErr (CUInt 104))), dispute_example)"
    using w hv g unfolding dispute_codes by blast
  have hv3: "has_voted dispute_example 1 (tx_sender (call_by ''arb1'' 300))"
    and g3: "is_arbitrator dispute_example (tx_sender (call_by ''arb1'' 300))"
      "\<not> block_height (call_by ''arb1'' 300) < dispute_created_at dispute_example_record"
      "\<not> block_height (call_by ''arb1'' 300) - dispute_created_at dispute_example_record \<le> VOTING_PERIOD"
    by (simp_all add: dispute_example_eq dispute_example_record_def has_voted_def call_by_def
          is_arbitrator_def VOTING_PERIOD_def)
  have 5: "dispute_call dispute_example_dep (call_by ''arb1'' 300) (VoteOnDispute 1 False) dispute_example
       = (Returned (CErr (CErr (CUInt 105))), dispute_example)"
    using wl hv3 g(1,2,4) g3 unfolding dispute_codes by simp
  have r: "has_voted dispute_example_resolved 1 ''arb1''"
      "is_arbitrator dispute_example_resolved ''arb1''"
      "is_valid_dispute_id dispute_example_resolved 1"
    unfolding dispute_example_resolved_def dispute_example_calls_def
    by (simp_all add: dispute_eval)
  have 6: "dispute_call dispute_example_dep (call_by ''arb1'' 200) (VoteOnDispute 1 False) dispute_example_resolved
       = (Returned (CErr (CErr (CUInt 105))), dispute_example_resolved)"
    using wr r dispute_example_resolved_eq unfolding dispute_codes by (simp add: call_by_def)
  have m: "has_voted dispute_example_removed 1 ''arb1''"
      "\<not> is_arbitrator dispute_example_removed ''arb1''"
      "is_valid_dispute_id dispute_example_removed 1"
      "Disputes dispute_example_removed 1 = Some dispute_example_record"
    unfolding dispute_example_removed_def dispute_example_calls_def dispute_example_record_def
    by (simp_all add: dispute_eval)
  have 7: "dispute_call dispute_example_dep (call_by ''arb1'' 120) (VoteOnDispute 1 False) dispute_example_removed
       = (Returned (CErr (CErr (CUInt 103))), dispute_example_removed)"
    using wm m unfolding dispute_codes by (simp add: call_by_def)
  have hv': "has_voted dispute_example 1 ''arb1''" using hv tx by simp
  note reach = w [THEN conjunct2, THEN conjunct2, THEN conjunct2, THEN conjunct2,
      THEN conjunct2, THEN conjunct2, THEN conjunct1]
  have 8: "is_valid_dispute_id dispute_example 1"
    by (rule reach [THEN mp, THEN conjunct2]) (intro conjI dispute_example_def hv')
  show ?thesis using ok 1 b 2 hv 3 4 tx 5 r(1,2) 6 m(1,2) 7 8 by simp
qed

section \<open>CoreMarketPlace: purchase\<close>

lemma market_codes:
  "ERR_LISTING_NOT_FOUND = CErr (CUInt 101)" "ERR_INVALID_PRICE = CErr (CUInt 102)"
  "ERR_INVALID_SELLER_market = CErr (CUInt 103)" "ERR_INSUFFICIENT_BALANCE = CErr (CUInt 104)"
  "ERR_LISTING_EXPIRED = CErr (CUInt 105)" "ERR_INVALID_STATUS = CErr (CUInt 106)"
  "ERR_NOT_SELLER = CErr (CUInt 107)" "ERR_ALREADY_PURCHASED = CErr (CUInt 108)"
  "ERR_INVALID_INPUT = CErr (CUInt 109)" "ERR_INVALID_DURATION = CErr (CUInt 110)"
  "ERR_INVALID_LISTING_ID = CErr (CUInt 111)"
  by (simp_all add: ERR_LISTING_NOT_FOUND_def ERR_INVALID_PRICE_def ERR_INVALID_SELLER_market_def
      ERR_INSUFFICIENT_BALANCE_def ERR_LISTING_EXPIRED_def ERR_INVALID_STATUS_def
      ERR_NOT_SELLER_def ERR_ALREADY_PURCHASED_def ERR_INVALID_INPUT_def
      ERR_INVALID_DURATION_def ERR_INVALID_LISTING_ID_def)

lemma create_listing_ok:
  "create_listing ctx nm descr prc duration s = (r, s') \<Longrightarrow> is_ok r \<Longrightarrow>
     s' = s\<lparr>last_listing_id := last_listing_id s + 1,
            Listings := (Listings s)(last_listing_id s + 1 \<mapsto>
              \<lparr>listing_seller = tx_sender ctx, name = nm, description = descr, price = prc,
               listing_status = ''active'', listing_created_at = block_height ctx,
               listing_expires_at = block_height ctx + duration\<rparr>)\<rparr>"
  unfolding create_listing_def increment_listing_id_def uint_add_def
  by (auto simp: Let_def split: option.splits if_splits sum.splits)

lemma update_listing_not_ok:
  "update_listing ctx i p d s = (r, s') \<Longrightarrow> \<not> is_ok r \<Longrightarrow> s' = s"
  unfolding update_listing_def by (auto split: option.splits if_splits)

lemma update_listing_ok:
  "update_listing ctx i p d s = (r, s') \<Longrightarrow> is_ok r \<Longrightarrow>
     \<exists>l. Listings s i = Some l \<and> listing_status l = ''active''
       \<and> s' = s\<lparr>Listings := (Listings s)(i \<mapsto> l\<lparr>price := p, description := d\<rparr>)\<rparr>"
  unfolding update_listing_def by (auto split: option.splits if_splits)

lemma cancel_listing_not_ok:
  "cancel_listing ctx i s = (r, s') \<Longrightarrow> \<not> is_ok r \<Longrightarrow> s' = s"
  unfolding cancel_listing_def by (auto split: option.splits if_splits)

lemma cancel_listing_ok:
  "cancel_listing ctx i s = (r, s') \<Longrightarrow> is_ok r \<Longrightarrow>
     \<exists>l. Listings s i = Some l \<and> listing_status l = ''active''
       \<and> s' = s\<lparr>Listings := (Listings s)(i \<mapsto> l\<lparr>listing_status := ''cancelled''\<rparr>)\<rparr>"
  unfolding cancel_listing_def by (auto split: option.splits if_splits)

lemma purchase_listing_not_ok:
  "purchase_listing dep ctx i s = (r, s') \<Longrightarrow> \<not> is_ok r \<Longrightarrow> s' = s"
  unfolding purchase_listing_def by (auto split: option.splits if_splits sum.splits)

lemma purchase_listing_ok:
  "purchase_listing dep ctx i s = (r, s') \<Longrightarrow> is_ok r \<Longrightarrow>
     \<exists>l bal. Listings s i = Some l \<and> listing_status l = ''active''
       \<and> block_height ctx \<le> listing_expires_at l
       \<and> stx_transfer (price l) (tx_sender ctx) (listing_seller l) (stx s) = Inr bal
       \<and> s' = s\<lparr>stx := bal, Listings := (Listings s)(i \<mapsto> l\<lparr>listing_status := ''sold''\<rparr>)\<rparr>"
  unfolding purchase_listing_def by (auto split: option.splits if_splits sum.splits)

lemma market_call_snd:
  "snd (market_call dep ctx op s) = s \<or>
   (is_ok (fst (market_body dep ctx op s))
    \<and> snd (market_call dep ctx op s) = snd (market_body dep ctx op s))"
  by (simp add: market_call_def call_public_def Let_def split: prod.splits)

lemma market_body_effect:
  assumes b: "market_body dep ctx op s = (r, s')" and ok: "is_ok r"
  shows "(\<exists>l. s' = s\<lparr>last_listing_id := last_listing_id s + 1,
                  Listings := (Listings s)(last_listing_id s + 1 \<mapsto> l)\<rparr>)
       \<or> (\<exists>i l l' bal. Listings s i = Some l \<and> listing_status l = ''active''
            \<and> s' = s\<lparr>stx := bal, Listings := (Listings s)(i \<mapsto> l')\<rparr>)"
proof (cases op)
  case (CreateListing nm descr prc duration)
  then have "create_listing ctx nm descr prc duration s = (r, s')" using b by simp
  from create_listing_ok [OF this ok] show ?thesis by blast
next
  case (UpdateListing i p d)
  then have "update_listing ctx i p d s = (r, s')" using b by simp
  from update_listing_ok [OF this ok] obtain l where l: "Listings s i = Some l" "listing_status l = ''active''"
    and s': "s' = s\<lparr>Listings := (Listings s)(i \<mapsto> l\<lparr>price := p, description := d\<rparr>)\<rparr>" by blast
  have "s' = s\<lparr>stx := stx s, Listings := (Listings s)(i \<mapsto> l\<lparr>price := p, description := d\<rparr>)\<rparr>"
    using s' by simp
  then show ?thesis using l by blast
next
  case (CancelListing i)
  then have "cancel_listing ctx i s = (r, s')" using b by simp
  from cancel_listing_ok [OF this ok] obtain l where l: "Listings s i = Some l" "listing_status l = ''active''"
    and s': "s' = s\<lparr>Listings := (Listings s)(i \<mapsto> l\<lparr>listing_status := ''cancelled''\<rparr>)\<rparr>" by blast
  have "s' = s\<lparr>stx := stx s, Listings := (Listings s)(i \<mapsto> l\<lparr>listing_status := ''cancelled''\<rparr>)\<rparr>"
    using s' by simp
  then show ?thesis using l by blast
next
  case (PurchaseListing i)
  then have "purchase_listing dep ctx i s = (r, s')" using b by simp
  from purchase_listing_ok [OF this ok] show ?thesis by blast
qed

lemma market_call_effect:
  "snd (market_call dep ctx op s) = s
   \<or> (\<exists>l. snd (market_call dep ctx op s) = s\<lparr>last_listing_id := last_listing_id s + 1,
                  Listings := (Listings s)(last_listing_id s + 1 \<mapsto> l)\<rparr>)
   \<or> (\<exists>i l l' bal. Listings s i = Some l \<and> listing_status l = ''active''
            \<and> snd (market_call dep ctx op s) = s\<lparr>stx := bal, Listings := (Listings s)(i \<mapsto> l')\<rparr>)"
proof (cases "snd (market_call dep ctx op s) = s")
  case True
  then show ?thesis by blast
next
  case False
  then have ok: "is_ok (fst (market_body dep ctx op s))"
    and eq: "snd (market_call dep ctx op s) = snd (market_body dep ctx op s)"
    using market_call_snd [of dep ctx op s] by blast+
  have "market_body dep ctx op s = (fst (market_body dep ctx op s), snd (market_body dep ctx op s))"
    by simp
  from market_body_effect [OF this ok] show ?thesis unfolding eq by blast
qed

lemma market_call_inv:
  assumes inv: "market_inv s" shows "market_inv (snd (market_call dep ctx op s))"
  using market_call_effect [of dep ctx op s] inv
  by (elim disjE exE conjE) (auto simp: market_inv_def split: if_splits)

lemma market_run_inv: "market_inv s \<Longrightarrow> market_inv (market_run dep calls s)"
  by (induction calls arbitrary: s) (simp_all add: market_call_inv)

lemma market_deployed_inv: "market_inv (market_deployed bal)"
  by (simp add: market_inv_def market_deployed_def)

lemma listing_closed_step:
  assumes inv: "market_inv s" and old: "Listings s j = Some l" and na: "listing_status l \<noteq> ''active''"
  shows "Listings (snd (market_call dep ctx op s)) j = Some l"
proof -
  have "j \<le> last_listing_id s" using inv old by (auto simp: market_inv_def)
  then show ?thesis
    using market_call_effect [of dep ctx op s] old na
    by (elim disjE exE conjE) (auto split: if_splits)
qed

lemma listing_closed_run:
  "market_inv s \<Longrightarrow> Listings s j = Some l \<Longrightarrow> listing_status l \<noteq> ''active'' \<Longrightarrow>
   Listings (market_run dep calls s) j = Some l"
  by (induction calls arbitrary: s) (simp_all add: market_call_inv listing_closed_step)

lemma purchase_listing_table:
  "is_valid_listing_id s i \<Longrightarrow> Listings s i = Some l \<Longrightarrow>
   market_call dep ctx (PurchaseListing i) s =
     (if listing_status l \<noteq> ''active'' then (Returned (CErr ERR_INVALID_STATUS), s)
      else if \<not> block_height ctx \<le> listing_expires_at l then (Returned (CErr ERR_LISTING_EXPIRED), s)
      else if \<not> is_valid_seller dep ctx (listing_seller l)
        then (Returned (CErr ERR_INVALID_SELLER_market), s)
      else (case stx_transfer (price l) (tx_sender ctx) (listing_seller l) (stx s) of
              Inl c \<Rightarrow> (Returned (CErr ERR_INSUFFICIENT_BALANCE), s)
            | Inr bal \<Rightarrow> (Returned (COk (CBool True)),
                s\<lparr>stx := bal, Listings := (Listings s)(i \<mapsto> l\<lparr>listing_status := ''sold''\<rparr>)\<rparr>)))"
  by (simp add: market_call_def call_public_def purchase_listing_def split: sum.splits)

lemma purchase_sets_sold:
  assumes v: "is_valid_listing_id s i" and old: "Listings s i = Some l"
    and ok: "is_ok (fst (market_call dep ctx (PurchaseListing i) s))"
  shows "listing_status l = ''active'' \<and> block_height ctx \<le> listing_expires_at l
     \<and> Listings (snd (market_call dep ctx (PurchaseListing i) s)) i = Some (l\<lparr>listing_status := ''sold''\<rparr>)"
  using ok unfolding purchase_listing_table [OF v old]
  by (auto split: if_splits sum.splits)

lemma purchase_needs_listing:
  "is_ok (fst (market_call dep ctx (PurchaseListing i) s)) \<Longrightarrow>
     is_valid_listing_id s i \<and> (\<exists>l. Listings s i = Some l)"
  unfolding market_call_def call_public_fst
  by (auto simp: purchase_listing_def split: option.splits if_splits sum.splits)

lemma sold_count_closed:
  "market_inv s \<Longrightarrow> Listings s i = Some l \<Longrightarrow> listing_status l \<noteq> ''active'' \<Longrightarrow>
   sold_count dep i calls s = 0"
proof (induction calls arbitrary: s)
  case Nil
  show ?case by simp
next
  case (Cons c calls)
  have v: "is_valid_listing_id s i"
    using Cons.prems(1,2) by (auto simp: market_inv_def is_valid_listing_id_def)
  have rest: "sold_count dep i calls (snd (market_call dep (fst c) (snd c) s)) = 0"
    using Cons.IH [OF market_call_inv [OF Cons.prems(1)] listing_closed_step [OF Cons.prems] Cons.prems(3)] .
  have "\<not> (snd c = PurchaseListing i \<and> is_ok (fst (market_call dep (fst c) (snd c) s)))"
  proof
    assume h: "snd c = PurchaseListing i \<and> is_ok (fst (market_call dep (fst c) (snd c) s))"
    then have e: "snd c = PurchaseListing i"
      and ok': "is_ok (fst (market_call dep (fst c) (snd c) s))" by blast+
    have ok: "is_ok (fst (market_call dep (fst c) (PurchaseListing i) s))" using ok' unfolding e .
    from purchase_sets_sold [OF v Cons.prems(2) ok] Cons.prems(3) show False by blast
  qed
  then show ?case using rest by simp
qed

lemma sold_count_le_1: "market_inv s \<Longrightarrow> sold_count dep i calls s \<le> 1"
proof (induction calls arbitrary: s)
  case Nil
  show ?case by simp
next
  case (Cons c calls)
  note inv' = market_call_inv [OF Cons.prems, of dep "fst c" "snd c"]
  show ?case
  proof (cases "snd c = PurchaseListing i \<and> is_ok (fst (market_call dep (fst c) (snd c) s))")
    case True
    then have e: "snd c = PurchaseListing i"
      and ok': "is_ok (fst (market_call dep (fst c) (snd c) s))" by blast+
    have ok: "is_ok (fst (market_call dep (fst c) (PurchaseListing i) s))" using ok' unfolding e .
    from purchase_needs_listing [OF ok] obtain l where v: "is_valid_listing_id s i"
      and old: "Listings s i = Some l" by blast
    from purchase_sets_sold [OF v old ok]
    have "Listings (snd (market_call dep (fst c) (PurchaseListing i) s)) i = Some (l\<lparr>listing_status := ''sold''\<rparr>)"
      by blast
    then have n: "Listings (snd (market_call dep (fst c) (snd c) s)) i = Some (l\<lparr>listing_status := ''sold''\<rparr>)"
      unfolding e .
    have "sold_count dep i calls (snd (market_call dep (fst c) (snd c) s)) = 0"
      by (rule sold_count_closed [OF inv' n]) simp
    then show ?thesis using True by simp
  next
    case False
    then have "sold_count dep i (c # calls) s
        = sold_count dep i calls (snd (market_call dep (fst c) (snd c) s))"
      by auto
    then show ?thesis using Cons.IH [OF inv'] by simp
  qed
qed

text \<open>
  C9. Take a listing recorded in a state reached from the deployed contract. If its
  status is not \<open>"active"\<close> (it is sold or cancelled), \<open>purchase-listing\<close> returns
  \<open>(err ERR_INVALID_STATUS)\<close> (code 106) whatever the caller and the block height, and
  changes nothing. If it is active and the block height is past \<open>expires-at\<close>, the call
  returns \<open>(err ERR_LISTING_EXPIRED)\<close> (code 105). A purchase that succeeds finds the
  listing active and leaves it \<open>"sold"\<close>; a sold listing stays as it is under every
  later sequence of calls, so along any sequence of calls at most one purchase of a given
  listing succeeds.
\<close>

theorem purchase_listing_sold_once:
  assumes reach: "s = market_run dep calls (market_deployed bal)" and old: "Listings s i = Some l"
  shows "(listing_status l \<noteq> ''active'' \<longrightarrow>
           market_call dep ctx (PurchaseListing i) s = (Returned (CErr ERR_INVALID_STATUS), s))
    \<and> (listing_status l = ''active'' \<and> listing_expires_at l < block_height ctx \<longrightarrow>
           market_call dep ctx (PurchaseListing i) s = (Returned (CErr ERR_LISTING_EXPIRED), s))
    \<and> (is_ok (fst (market_call dep ctx (PurchaseListing i) s)) \<longrightarrow>
           listing_status l = ''active''
           \<and> Listings (snd (market_call dep ctx (PurchaseListing i) s)) i
               = Some (l\<lparr>listing_status := ''sold''\<rparr>))
    \<and> (listing_status l = ''sold'' \<longrightarrow>
           Listings (market_run dep later s) i = Some l \<and> sold_count dep i later s = 0)
    \<and> sold_count dep i later s \<le> 1
    \<and> sold_count dep k calls (market_deployed bal) \<le> 1
    \<and> ERR_INVALID_STATUS = CErr (CUInt 106) \<and> ERR_LISTING_EXPIRED = CErr (CUInt 105)"
proof -
  have inv: "market_inv s" unfolding reach using market_deployed_inv by (rule market_run_inv)
  have v: "is_valid_listing_id s i"
    using inv old by (auto simp: market_inv_def is_valid_listing_id_def)
  note t = purchase_listing_table [OF v old, of dep ctx]
  show ?thesis
  proof (intro conjI impI)
    assume "listing_status l \<noteq> ''active''"
    then show "market_call dep ctx (PurchaseListing i) s = (Returned (CErr ERR_INVALID_STATUS), s)"
      unfolding t by simp
  next
    assume "listing_status l = ''active'' \<and> listing_expires_at l < block_height ctx"
    then show "market_call dep ctx (PurchaseListing i) s = (Returned (CErr ERR_LISTING_EXPIRED), s)"
      unfolding t by simp
  next
    assume ok: "is_ok (fst (market_call dep ctx (PurchaseListing i) s))"
    from purchase_sets_sold [OF v old ok]
    show "listing_status l = ''active''"
      and "Listings (snd (market_call dep ctx (PurchaseListing i) s)) i
               = Some (l\<lparr>listing_status := ''sold''\<rparr>)" by blast+
  next
    assume sold: "listing_status l = ''sold''"
    then have na: "listing_status l \<noteq> ''active''" by simp
    show "Listings (market_run dep later s) i = Some l"
      using inv old na by (rule listing_closed_run)
    show "sold_count dep i later s = 0"
      using inv old na by (rule sold_count_closed)
  next
    show "sold_count dep i later s \<le> 1" using inv by (rule sold_count_le_1)
  next
    show "sold_count dep k calls (market_deployed bal) \<le> 1"
      using market_deployed_inv by (rule sold_count_le_1)
  next
    show "ERR_INVALID_STATUS = CErr (CUInt 106)" and "ERR_LISTING_EXPIRED = CErr (CUInt 105)"
      by (rule market_codes)+
  qed
qed

lemmas market_eval =
  market_call_def call_public_def create_listing_def update_listing_def cancel_listing_def
  purchase_listing_def increment_listing_id_def is_valid_price_def is_valid_string_def
  is_valid_duration_def is_valid_listing_id_def is_valid_seller_def stx_transfer_def
  uint_add_def uint_max_def MAX_LISTING_DURATION_def call_by_def market_example_dep_def
  market_ledger_def market_deployed_def Let_def

lemma market_example_eq:
  "market_example =
     \<lparr>stx = (\<lambda>p. 0)(''wallet_2'' := 4000000, ''wallet_1'' := 1000000),
      Listings = [1 \<mapsto> market_example_sold, 2 \<mapsto> market_example_active],
      last_listing_id = 2\<rparr>"
  unfolding market_example_def market_example_calls_def market_example_sold_def
    market_example_active_def
  by (simp add: market_eval fun_eq_iff)

theorem purchase_listing_sold_once_witness:
  "Listings market_example 1 = Some market_example_sold
   \<and> listing_status market_example_sold \<noteq> ''active''
   \<and> market_call market_example_dep (call_by ''wallet_3'' 13) (PurchaseListing 1) market_example
       = (Returned (CErr (CErr (CUInt 106))), market_example)
   \<and> market_call market_example_dep (call_by ''wallet_3'' 500) (PurchaseListing 1) market_example
       = (Returned (CErr (CErr (CUInt 106))), market_example)
   \<and> Listings market_example 2 = Some market_example_active
   \<and> listing_status market_example_active = ''active''
   \<and> listing_expires_at market_example_active < block_height (call_by ''wallet_2'' 17)
   \<and> market_call market_example_dep (call_by ''wallet_2'' 17) (PurchaseListing 2) market_example
       = (Returned (CErr (CErr (CUInt 105))), market_example)
   \<and> is_ok (fst (market_call market_example_dep (call_by ''wallet_2'' 12) (PurchaseListing 2) market_example))
   \<and> sold_count market_example_dep 1 market_example_calls (market_deployed market_ledger) \<le> 1"
proof -
  have l1: "Listings market_example 1 = Some market_example_sold"
    and l2: "Listings market_example 2 = Some market_example_active"
    by (simp_all add: market_example_eq)
  have s1: "listing_status market_example_sold \<noteq> ''active''"
    "listing_status market_example_sold = ''sold''"
    by (simp_all add: market_example_sold_def)
  have s2: "listing_status market_example_active = ''active''"
    "listing_expires_at market_example_active < block_height (call_by ''wallet_2'' 17)"
    by (simp_all add: market_example_active_def call_by_def)
  have ok: "is_ok (fst (market_call market_example_dep (call_by ''wallet_2'' 12) (PurchaseListing 2) market_example))"
    unfolding market_example_eq market_example_sold_def market_example_active_def
    by (simp add: market_eval)
  note w1 = purchase_listing_sold_once [OF market_example_def l1]
  note w2 = purchase_listing_sold_once [OF market_example_def l2]
  have a: "market_call market_example_dep (call_by ''wallet_3'' 13) (PurchaseListing 1) market_example
       = (Returned (CErr (CErr (CUInt 106))), market_example)"
    using w1 [of "call_by ''wallet_3'' 13"] s1 by simp
  have b: "market_call market_example_dep (call_by ''wallet_3'' 500) (PurchaseListing 1) market_example
       = (Returned (CErr (CErr (CUInt 106))), market_example)"
    using w1 [of "call_by ''wallet_3'' 500"] s1 by simp
  have c: "market_call market_example_dep (call_by ''wallet_2'' 17) (PurchaseListing 2) market_example
       = (Returned (CErr (CErr (CUInt 105))), market_example)"
    using w2 [of "call_by ''wallet_2'' 17"] s2 by simp
  have d: "sold_count market_example_dep 1 market_example_calls (market_deployed market_ledger) \<le> 1"
    using w1 [where k = 1] by blast
  show ?thesis using l1 l2 s1 s2 a b c d ok by (intro conjI)
qed

section \<open>Terminal states and failed calls\<close>

lemma escrow_call_snd:
  "snd (escrow_call dep ctx op s) = s \<or>
   (is_ok (fst (escrow_body dep ctx op s))
    \<and> snd (escrow_call dep ctx op s) = snd (escrow_body dep ctx op s))"
  by (simp add: escrow_call_def call_public_def Let_def split: prod.splits)

lemma escrow_settled_step:
  assumes inv: "escrow_inv dep s" and old: "Escrows s i = Some e" and nl: "state e \<noteq> ''locked''"
  shows "Escrows (snd (escrow_call dep ctx op s)) i = Some e"
proof (cases "snd (escrow_call dep ctx op s) = s")
  case True
  then show ?thesis using old by simp
next
  case False
  then have ok: "is_ok (fst (escrow_body dep ctx op s))"
    and eq: "snd (escrow_call dep ctx op s) = snd (escrow_body dep ctx op s)"
    using escrow_call_snd [of dep ctx op s] by blast+
  have b: "escrow_body dep ctx op s = (fst (escrow_body dep ctx op s), snd (escrow_body dep ctx op s))"
    by simp
  have le: "i \<le> last_escrow_id s" using escrow_inv_rec [OF inv old] by simp
  show ?thesis
  proof (cases op)
    case (CreateEscrow slr amt)
    then have "create_escrow dep ctx slr amt s = (fst (escrow_body dep ctx op s), snd (escrow_body dep ctx op s))"
      using b by simp
    from create_escrow_ok [OF this ok] show ?thesis unfolding eq using old le by auto
  next
    case (ReleaseFunds k)
    then have "release_funds dep ctx k s = (fst (escrow_body dep ctx op s), snd (escrow_body dep ctx op s))"
      using b by simp
    from release_funds_ok [OF this ok] show ?thesis unfolding eq using old nl by auto
  next
    case (RefundBuyer k)
    then have "refund_buyer dep ctx k s = (fst (escrow_body dep ctx op s), snd (escrow_body dep ctx op s))"
      using b by simp
    from refund_buyer_ok [OF this ok] show ?thesis unfolding eq using old nl by auto
  qed
qed

lemma escrow_settled_run:
  "escrow_inv dep s \<Longrightarrow> Escrows s i = Some e \<Longrightarrow> state e \<noteq> ''locked'' \<Longrightarrow>
   Escrows (escrow_run dep calls s) i = Some e"
  by (induction calls arbitrary: s) (simp_all add: escrow_call_inv escrow_settled_step)

lemma dispute_resolved_run:
  "dispute_inv s \<Longrightarrow> Disputes s j = Some d \<Longrightarrow> status d = ''resolved'' \<Longrightarrow>
   Disputes (dispute_run dep calls s) j = Some d"
  by (induction calls arbitrary: s) (simp_all add: dispute_call_inv dispute_resolved_step)

text \<open>
  C5. Terminal states are absorbing. In a state reached from the deployed escrow
  contract, an escrow whose state is \<open>"released"\<close> or \<open>"refunded"\<close> keeps its whole
  record, the state included, under every further sequence of calls. In a state reached
  from the deployed dispute contract, a dispute whose status is \<open>"resolved"\<close> keeps its
  whole record (status, both tallies and the resolution) under every further sequence of
  calls.
\<close>

theorem terminal_states_absorbing:
  "(b0 (contract_principal dep) = 0 \<and> s = escrow_run dep calls (escrow_deployed b0)
      \<and> Escrows s i = Some e \<and> (state e = ''released'' \<or> state e = ''refunded'') \<longrightarrow>
      Escrows (escrow_run dep later s) i = Some e)
   \<and> (t = dispute_run dep2 calls2 dispute_deployed
      \<and> Disputes t j = Some d \<and> status d = ''resolved'' \<longrightarrow>
      Disputes (dispute_run dep2 later2 t) j = Some d)"
proof (intro conjI impI)
  assume a: "b0 (contract_principal dep) = 0 \<and> s = escrow_run dep calls (escrow_deployed b0)
      \<and> Escrows s i = Some e \<and> (state e = ''released'' \<or> state e = ''refunded'')"
  then have z: "b0 (contract_principal dep) = 0" and seq: "s = escrow_run dep calls (escrow_deployed b0)"
    and old: "Escrows s i = Some e" and st: "state e = ''released'' \<or> state e = ''refunded''"
    by blast+
  have inv: "escrow_inv dep s"
    unfolding seq using escrow_deployed_inv [of b0 dep, OF z] by (rule escrow_run_inv)
  have nl: "state e \<noteq> ''locked''" using st by auto
  show "Escrows (escrow_run dep later s) i = Some e"
    using inv old nl by (rule escrow_settled_run)
next
  assume a: "t = dispute_run dep2 calls2 dispute_deployed
      \<and> Disputes t j = Some d \<and> status d = ''resolved''"
  then have teq: "t = dispute_run dep2 calls2 dispute_deployed"
    and old: "Disputes t j = Some d" and res: "status d = ''resolved''" by blast+
  have inv: "dispute_inv t" unfolding teq using dispute_deployed_inv by (rule dispute_run_inv)
  show "Disputes (dispute_run dep2 later2 t) j = Some d"
    using inv old res by (rule dispute_resolved_run)
qed

lemma escrow_example_released_eq:
  "Escrows escrow_example_released 1 = Some (escrow_example_record\<lparr>state := ''released''\<rparr>)"
  unfolding escrow_example_released_def escrow_example_record_def
  by (simp add: escrow_eval)

theorem terminal_states_absorbing_witness:
  "example_ledger (contract_principal escrow_example_dep) = 0
   \<and> Escrows escrow_example_released 1 = Some (escrow_example_record\<lparr>state := ''released''\<rparr>)
   \<and> state (escrow_example_record\<lparr>state := ''released''\<rparr>) = ''released''
   \<and> Escrows (escrow_run escrow_example_dep
         [(call_by ''deployer'' 30, RefundBuyer 1), (call_by ''alice'' 40, ReleaseFunds 1),
          (call_by ''carol'' 50, CreateEscrow ''bob'' 200)] escrow_example_released) 1
       = Some (escrow_example_record\<lparr>state := ''released''\<rparr>)
   \<and> Disputes dispute_example_resolved 1 =
       Some (dispute_example_record\<lparr>status := ''resolved'', resolution := Some ''for_counterparty''\<rparr>)
   \<and> status (dispute_example_record\<lparr>status := ''resolved'', resolution := Some ''for_counterparty''\<rparr>)
       = ''resolved''
   \<and> Disputes (dispute_run dispute_example_dep
         [(call_by ''arb1'' 200, VoteOnDispute 1 True), (call_by ''carol'' 201, ResolveDispute 1),
          (call_by ''alice'' 202, RaiseDispute 1 ''bob'' ''again'')] dispute_example_resolved) 1
       = Some (dispute_example_record\<lparr>status := ''resolved'', resolution := Some ''for_counterparty''\<rparr>)"
proof -
  have z: "example_ledger (contract_principal escrow_example_dep) = 0"
    by (rule escrow_example_facts)
  have st: "state (escrow_example_record\<lparr>state := ''released''\<rparr>) = ''released''"
    "status (dispute_example_record\<lparr>status := ''resolved'', resolution := Some ''for_counterparty''\<rparr>)
       = ''resolved''"
    by simp_all
  note w = terminal_states_absorbing [where dep = escrow_example_dep and ?b0.0 = example_ledger
      and s = escrow_example_released and i = 1
      and e = "escrow_example_record\<lparr>state := ''released''\<rparr>"
      and t = dispute_example_resolved and j = 1 and ?dep2.0 = dispute_example_dep
      and d = "dispute_example_record\<lparr>status := ''resolved'', resolution := Some ''for_counterparty''\<rparr>"]
  show ?thesis
    using w z st escrow_example_released_eq dispute_example_resolved_eq
      escrow_example_released_def dispute_example_resolved_def
    by blast
qed

lemma escrow_body_not_ok:
  "\<not> is_ok (fst (escrow_body dep ctx op s)) \<Longrightarrow> snd (escrow_body dep ctx op s) = s"
proof (cases op)
  case (CreateEscrow slr amt)
  assume "\<not> is_ok (fst (escrow_body dep ctx op s))"
  then show ?thesis
    using create_escrow_not_ok [of dep ctx slr amt s "fst (create_escrow dep ctx slr amt s)"
        "snd (create_escrow dep ctx slr amt s)"] CreateEscrow by simp
next
  case (ReleaseFunds k)
  assume "\<not> is_ok (fst (escrow_body dep ctx op s))"
  then show ?thesis
    using release_funds_not_ok [of dep ctx k s "fst (release_funds dep ctx k s)"
        "snd (release_funds dep ctx k s)"] ReleaseFunds by simp
next
  case (RefundBuyer k)
  assume "\<not> is_ok (fst (escrow_body dep ctx op s))"
  then show ?thesis
    using refund_buyer_not_ok [of dep ctx k s "fst (refund_buyer dep ctx k s)"
        "snd (refund_buyer dep ctx k s)"] RefundBuyer by simp
qed

lemma dispute_body_not_ok:
  "\<not> is_ok (fst (dispute_body dep ctx op s)) \<Longrightarrow> snd (dispute_body dep ctx op s) = s"
proof (cases op)
  case (RaiseDispute eid cp rsn)
  assume "\<not> is_ok (fst (dispute_body dep ctx op s))"
  then show ?thesis
    using raise_dispute_not_ok [of ctx eid cp rsn s "fst (raise_dispute ctx eid cp rsn s)"
        "snd (raise_dispute ctx eid cp rsn s)"] RaiseDispute by simp
next
  case (VoteOnDispute k v)
  assume "\<not> is_ok (fst (dispute_body dep ctx op s))"
  then show ?thesis
    using vote_on_dispute_not_ok [of ctx k v s "fst (vote_on_dispute ctx k v s)"
        "snd (vote_on_dispute ctx k v s)"] VoteOnDispute by simp
next
  case (ResolveDispute k)
  assume "\<not> is_ok (fst (dispute_body dep ctx op s))"
  then show ?thesis
    using resolve_dispute_not_ok [of ctx k s "fst (resolve_dispute ctx k s)"
        "snd (resolve_dispute ctx k s)"] ResolveDispute by simp
next
  case (AddArbitrator a)
  assume "\<not> is_ok (fst (dispute_body dep ctx op s))"
  then show ?thesis
    using add_arbitrator_cases [of dep ctx a s "fst (add_arbitrator dep ctx a s)"
        "snd (add_arbitrator dep ctx a s)"] AddArbitrator by simp
next
  case (RemoveArbitrator a)
  assume "\<not> is_ok (fst (dispute_body dep ctx op s))"
  then show ?thesis
    using remove_arbitrator_cases [of dep ctx a s "fst (remove_arbitrator dep ctx a s)"
        "snd (remove_arbitrator dep ctx a s)"] RemoveArbitrator by simp
next
  case (SetArbitratorReward n)
  assume "\<not> is_ok (fst (dispute_body dep ctx op s))"
  then show ?thesis
    using set_arbitrator_reward_cases [of dep ctx n s "fst (set_arbitrator_reward dep ctx n s)"
        "snd (set_arbitrator_reward dep ctx n s)"] SetArbitratorReward by simp
qed

lemma market_body_not_ok:
  "\<not> is_create_listing op \<Longrightarrow> \<not> is_ok (fst (market_body dep ctx op s)) \<Longrightarrow>
   snd (market_body dep ctx op s) = s"
proof (cases op)
  case (CreateListing nm descr prc duration)
  assume "\<not> is_create_listing op"
  then show ?thesis using CreateListing by simp
next
  case (UpdateListing k p d)
  assume "\<not> is_ok (fst (market_body dep ctx op s))"
  then show ?thesis
    using update_listing_not_ok [of ctx k p d s "fst (update_listing ctx k p d s)"
        "snd (update_listing ctx k p d s)"] UpdateListing by simp
next
  case (CancelListing k)
  assume "\<not> is_ok (fst (market_body dep ctx op s))"
  then show ?thesis
    using cancel_listing_not_ok [of ctx k s "fst (cancel_listing ctx k s)"
        "snd (cancel_listing ctx k s)"] CancelListing by simp
next
  case (PurchaseListing k)
  assume "\<not> is_ok (fst (market_body dep ctx op s))"
  then show ?thesis
    using purchase_listing_not_ok [of dep ctx k s "fst (purchase_listing dep ctx k s)"
        "snd (purchase_listing dep ctx k s)"] PurchaseListing by simp
qed

lemma call_public_not_ok_snd:
  "\<not> is_ok (fst (call_public body s)) \<Longrightarrow> snd (call_public body s) = s"
  by (auto simp: call_public_def Let_def split: prod.splits if_splits)

lemma create_escrow_transfer_failed:
  "stx_transfer amt (tx_sender ctx) (contract_principal dep) (stx s) = Inl c \<Longrightarrow>
   \<not> is_ok (fst (create_escrow dep ctx slr amt s))"
  unfolding create_escrow_def by (auto split: option.splits)

lemma create_listing_error_advances_counter_in_body:
  "create_listing (call_by ''wallet_1'' 10) ''Item'' ''First'' 0 144 (market_deployed bal)
     = (Returned (CErr ERR_INVALID_PRICE), (market_deployed bal)\<lparr>last_listing_id := 1\<rparr>)"
  by (simp add: create_listing_def increment_listing_id_def uint_add_def uint_max_def
      is_valid_price_def market_deployed_def call_by_def Let_def)

text \<open>
  C7. Every public call of the three contracts that does not return \<open>(ok \<dots>)\<close>
  leaves the persisted state exactly as it was. For the escrow and dispute operations,
  and for \<open>update-listing\<close>, \<open>cancel-listing\<close> and \<open>purchase-listing\<close>, the body
  itself makes no change before it returns an error; \<open>create-listing\<close> advances the
  counter first and is covered by the transaction, which discards the change. In
  particular, when the transfer into the vault fails, \<open>create-escrow\<close> fails, records
  no escrow and does not advance \<open>last-escrow-id\<close>.
\<close>

theorem errors_leave_state_unchanged:
  "(\<not> is_ok (fst (escrow_call edep ectx eop es)) \<longrightarrow> snd (escrow_call edep ectx eop es) = es)
   \<and> (\<not> is_ok (fst (dispute_call ddep dctx dop ds)) \<longrightarrow> snd (dispute_call ddep dctx dop ds) = ds)
   \<and> (\<not> is_ok (fst (market_call mdep mctx mop ms)) \<longrightarrow> snd (market_call mdep mctx mop ms) = ms)
   \<and> (\<not> is_ok (fst (escrow_body edep ectx eop es)) \<longrightarrow> snd (escrow_body edep ectx eop es) = es)
   \<and> (\<not> is_ok (fst (dispute_body ddep dctx dop ds)) \<longrightarrow> snd (dispute_body ddep dctx dop ds) = ds)
   \<and> (\<not> is_create_listing mop \<and> \<not> is_ok (fst (market_body mdep mctx mop ms)) \<longrightarrow>
        snd (market_body mdep mctx mop ms) = ms)
   \<and> (stx_transfer amt (tx_sender ectx) (contract_principal edep) (stx es) = Inl c \<longrightarrow>
        \<not> is_ok (fst (escrow_call edep ectx (CreateEscrow slr amt) es))
        \<and> Escrows (snd (escrow_call edep ectx (CreateEscrow slr amt) es)) = Escrows es
        \<and> last_escrow_id (snd (escrow_call edep ectx (CreateEscrow slr amt) es)) = last_escrow_id es
        \<and> snd (escrow_call edep ectx (CreateEscrow slr amt) es) = es)"
proof (intro conjI impI)
  assume "\<not> is_ok (fst (escrow_call edep ectx eop es))"
  then show "snd (escrow_call edep ectx eop es) = es"
    unfolding escrow_call_def by (rule call_public_not_ok_snd)
next
  assume "\<not> is_ok (fst (dispute_call ddep dctx dop ds))"
  then show "snd (dispute_call ddep dctx dop ds) = ds"
    unfolding dispute_call_def by (rule call_public_not_ok_snd)
next
  assume "\<not> is_ok (fst (market_call mdep mctx mop ms))"
  then show "snd (market_call mdep mctx mop ms) = ms"
    unfolding market_call_def by (rule call_public_not_ok_snd)
next
  assume "\<not> is_ok (fst (escrow_body edep ectx eop es))"
  then show "snd (escrow_body edep ectx eop es) = es" by (rule escrow_body_not_ok)
next
  assume "\<not> is_ok (fst (dispute_body ddep dctx dop ds))"
  then show "snd (dispute_body ddep dctx dop ds) = ds" by (rule dispute_body_not_ok)
next
  assume "\<not> is_create_listing mop \<and> \<not> is_ok (fst (market_body mdep mctx mop ms))"
  then show "snd (market_body mdep mctx mop ms) = ms" using market_body_not_ok by blast
next
  assume f: "stx_transfer amt (tx_sender ectx) (contract_principal edep) (stx es) = Inl c"
  show n: "\<not> is_ok (fst (escrow_call edep ectx (CreateEscrow slr amt) es))"
    using create_escrow_transfer_failed [OF f, of slr]
    by (simp add: escrow_call_def call_public_fst)
  show u: "snd (escrow_call edep ectx (CreateEscrow slr amt) es) = es"
    using n unfolding escrow_call_def by (rule call_public_not_ok_snd)
  show "Escrows (snd (escrow_call edep ectx (CreateEscrow slr amt) es)) = Escrows es"
    and "last_escrow_id (snd (escrow_call edep ectx (CreateEscrow slr amt) es)) = last_escrow_id es"
    unfolding u by simp_all
qed

theorem errors_leave_state_unchanged_witness:
  "\<not> is_ok (fst (escrow_call escrow_example_dep (call_by ''carol'' 20) (ReleaseFunds 1) escrow_example))
   \<and> snd (escrow_call escrow_example_dep (call_by ''carol'' 20) (ReleaseFunds 1) escrow_example) = escrow_example
   \<and> \<not> is_ok (fst (dispute_call dispute_example_dep (call_by ''carol'' 120) (VoteOnDispute 1 True) dispute_example))
   \<and> snd (dispute_call dispute_example_dep (call_by ''carol'' 120) (VoteOnDispute 1 True) dispute_example) = dispute_example
   \<and> \<not> is_ok (fst (market_call market_example_dep (call_by ''carol'' 20) (CreateListing ''Item'' ''First'' 0 144) market_example))
   \<and> snd (market_call market_example_dep (call_by ''carol'' 20) (CreateListing ''Item'' ''First'' 0 144) market_example) = market_example
   \<and> \<not> is_ok (fst (escrow_body escrow_example_dep (call_by ''carol'' 20) (ReleaseFunds 1) escrow_example))
   \<and> snd (escrow_body escrow_example_dep (call_by ''carol'' 20) (ReleaseFunds 1) escrow_example) = escrow_example
   \<and> \<not> is_ok (fst (dispute_body dispute_example_dep (call_by ''carol'' 120) (VoteOnDispute 1 True) dispute_example))
   \<and> snd (dispute_body dispute_example_dep (call_by ''carol'' 120) (VoteOnDispute 1 True) dispute_example) = dispute_example
   \<and> \<not> is_create_listing (PurchaseListing 1)
   \<and> \<not> is_ok (fst (market_body market_example_dep (call_by ''carol'' 20) (PurchaseListing 1) market_example))
   \<and> snd (market_body market_example_dep (call_by ''carol'' 20) (PurchaseListing 1) market_example) = market_example
   \<and> stx_transfer 900 (tx_sender (call_by ''carol'' 20)) (contract_principal escrow_example_dep) (stx escrow_example) = Inl 1
   \<and> snd (escrow_call escrow_example_dep (call_by ''carol'' 20) (CreateEscrow ''bob'' 900) escrow_example) = escrow_example"
proof -
  have e: "\<not> is_ok (fst (escrow_call escrow_example_dep (call_by ''carol'' 20) (ReleaseFunds 1) escrow_example))"
    unfolding escrow_example_eq by (simp add: escrow_eval)
  have d: "\<not> is_ok (fst (dispute_call dispute_example_dep (call_by ''carol'' 120) (VoteOnDispute 1 True) dispute_example))"
    unfolding dispute_example_eq dispute_example_record_def by (simp add: dispute_eval)
  have m: "\<not> is_ok (fst (market_call market_example_dep (call_by ''carol'' 20) (CreateListing ''Item'' ''First'' 0 144) market_example))"
    unfolding market_example_eq by (simp add: market_eval)
  have e': "\<not> is_ok (fst (escrow_body escrow_example_dep (call_by ''carol'' 20) (ReleaseFunds 1) escrow_example))"
    using e by (simp add: escrow_call_def call_public_fst)
  have d': "\<not> is_ok (fst (dispute_body dispute_example_dep (call_by ''carol'' 120) (VoteOnDispute 1 True) dispute_example))"
    using d by (simp add: dispute_call_def call_public_fst)
  have m': "\<not> is_create_listing (PurchaseListing 1)"
    "\<not> is_ok (fst (market_body market_example_dep (call_by ''carol'' 20) (PurchaseListing 1) market_example))"
    unfolding market_example_eq market_example_sold_def by (simp_all add: market_eval)
  have f: "stx_transfer 900 (tx_sender (call_by ''carol'' 20)) (contract_principal escrow_example_dep) (stx escrow_example) = Inl 1"
    unfolding escrow_example_eq by (simp add: stx_transfer_def call_by_def escrow_example_dep_def)
  note w = errors_leave_state_unchanged [where edep = escrow_example_dep and ectx = "call_by ''carol'' 20"
      and ddep = dispute_example_dep and dctx = "call_by ''carol'' 120"
      and mdep = market_example_dep and mctx = "call_by ''carol'' 20"
      and eop = "ReleaseFunds 1" and es = escrow_example
      and dop = "VoteOnDispute 1 True" and ds = dispute_example and ms = market_example
      and amt = 900 and c = 1 and slr = "''bob''"]
  show ?thesis
    using w [where mop = "CreateListing ''Item'' ''First'' 0 144"] w [where mop = "PurchaseListing 1"]
      e d m e' d' m' f by blast
qed

section \<open>EscrowService: custody with outside transfers\<close>




lemma escrow_inv_records: "escrow_inv dep s \<Longrightarrow> escrow_records_ok dep s"
  by (simp add: escrow_inv_def escrow_records_ok_def)




















end
